theory Spec2Isabelle
  imports Main "HOL-Library.Multiset"
begin

section \<open>Outcomes of Go calls\<close>

text \<open>
  The functions of \<^verbatim>\<open>pkg/oam/util/helper.go\<close> return a value together with an
  \<^verbatim>\<open>error\<close>, or they panic (an index out of range, a method called through a nil
  pointer). All three outcomes are values of the model.
\<close>

datatype panic = IndexOutOfRange | NilPointerDereference

text \<open>
  An error of the resource store (\<^verbatim>\<open>cli.Get\<close>, \<^verbatim>\<open>cli.List\<close>) is known to the
  code through two observations only: \<^verbatim>\<open>apierrors.IsNotFound(err)\<close> and
  \<^verbatim>\<open>err.Error()\<close>.
\<close>

datatype api_error = ApiError (IsNotFound: bool) (ErrorText: string)

datatype error =
    ErrInvalidSemVer
  | ErrParsingVersionSegment
  | ErrInvalidRevisionName string "string list"
  | ErrFindingRevision string string
  | ErrStore api_error

datatype 'a result = Ok 'a | Failed error | Panicked panic

section \<open>Go strings\<close>

text \<open>A Go string is a sequence of bytes; \<^typ>\<open>string\<close> is a list of \<^typ>\<open>char\<close>.\<close>

definition HasPrefix :: "string \<Rightarrow> string \<Rightarrow> bool" where
  "HasPrefix s p = (take (length p) s = p)"

text \<open>
  \<^verbatim>\<open>strings.Split(s, sep)\<close>: the pieces of \<open>s\<close> between the occurrences of \<open>sep\<close>,
  found from the left and not overlapping. With an empty separator Go cuts after every
  UTF-8 sequence; the model cuts after every byte there (the same for ASCII text; the
  code of this file always passes a separator that is not empty).
\<close>

function splitFrom :: "string \<Rightarrow> string \<Rightarrow> string \<Rightarrow> string list" where
  "splitFrom sep cur [] = [rev cur]"
| "splitFrom sep cur (c # cs) =
     (if sep \<noteq> [] \<and> HasPrefix (c # cs) sep
      then rev cur # splitFrom sep [] (drop (length sep) (c # cs))
      else splitFrom sep (c # cur) cs)"
  by pat_completeness auto
termination
  by (relation "measure (\<lambda>(sep, cur, s). length s)") auto

definition Split :: "string \<Rightarrow> string \<Rightarrow> string list" where
  "Split s sep = (if sep = [] then map (\<lambda>c. [c]) s else splitFrom sep [] s)"

definition TrimPrefix :: "string \<Rightarrow> string \<Rightarrow> string" where
  "TrimPrefix s p = (if HasPrefix s p then drop (length p) s else s)"

fun Contains :: "string \<Rightarrow> string \<Rightarrow> bool" where
  "Contains [] sub = (sub = [])"
| "Contains (c # cs) sub = (HasPrefix (c # cs) sub \<or> Contains cs sub)"

text \<open>Go compares strings byte by byte (\<^verbatim>\<open>s > o\<close>).\<close>

fun bytesLess :: "string \<Rightarrow> string \<Rightarrow> bool" where
  "bytesLess [] [] = False"
| "bytesLess [] (y # ys) = True"
| "bytesLess (x # xs) [] = False"
| "bytesLess (x # xs) (y # ys) =
     (if (of_char x :: int) < of_char y then True
      else if (of_char y :: int) < of_char x then False
      else bytesLess xs ys)"

subsection \<open>Decimal numbers\<close>

definition isDigit :: "char \<Rightarrow> bool" where
  "isDigit c = (48 \<le> (of_char c :: int) \<and> (of_char c :: int) \<le> 57)"

definition digitVal :: "char \<Rightarrow> int" where
  "digitVal c = of_char c - 48"

definition digitChar :: "int \<Rightarrow> char" where
  "digitChar d = char_of (48 + d)"

text \<open>The value of a string of decimal digits, most significant digit first.\<close>

definition decimalValue :: "string \<Rightarrow> int" where
  "decimalValue ds = foldl (\<lambda>a c. 10 * a + digitVal c) 0 ds"

text \<open>\<^verbatim>\<open>%d\<close> of a number that is not negative.\<close>

function formatNat :: "int \<Rightarrow> string" where
  "formatNat n =
     (if n < 10 then [digitChar n] else formatNat (n div 10) @ [digitChar (n mod 10)])"
  by pat_completeness auto
termination
  by (relation "measure nat") auto

text \<open>\<^verbatim>\<open>%d\<close> of an \<^verbatim>\<open>int64\<close>.\<close>

definition formatDecimal :: "int \<Rightarrow> string" where
  "formatDecimal n = (if n < 0 then CHR ''-'' # formatNat (- n) else formatNat n)"

declare formatNat.simps [simp del]

section \<open>The semantic-version library\<close>

text \<open>
  \<^verbatim>\<open>github.com/Masterminds/semver\<close> (the v1 API that \<^verbatim>\<open>helper.go\<close> imports) is a
  third-party library; the model below follows its documented behaviour.
  \<^verbatim>\<open>NewVersion\<close> matches its argument against
  \<^verbatim>\<open>^v?([0-9]+)(\.[0-9]+)?(\.[0-9]+)?(-PRE)?(\+META)?$\<close>, where \<^verbatim>\<open>PRE\<close> and
  \<^verbatim>\<open>META\<close> are identifiers of \<^verbatim>\<open>[0-9A-Za-z-]\<close> separated by dots, and reads the
  three numbers as 64-bit signed integers. It returns a nil pointer together with
  every error.
\<close>

record Version =
  major :: int
  minor :: int
  patch :: int
  pre :: string
  metadata :: string
  original :: string

definition isIdentChar :: "char \<Rightarrow> bool" where
  "isIdentChar c =
     (let n = (of_char c :: int)
      in (48 \<le> n \<and> n \<le> 57) \<or> (65 \<le> n \<and> n \<le> 90) \<or> (97 \<le> n \<and> n \<le> 122) \<or> n = 45)"

text \<open>\<^verbatim>\<open>[0-9A-Za-z\-]+(\.[0-9A-Za-z\-]+)*\<close> on the whole string.\<close>

definition isIdentifiers :: "string \<Rightarrow> bool" where
  "isIdentifiers s = list_all (\<lambda>part. part \<noteq> [] \<and> list_all isIdentChar part) (Split s ''.'')"

text \<open>
  An optional group \<^verbatim>\<open>(\.[0-9]+)?\<close> at the head of the input: the digits it matched
  (empty when the group did not match) and the rest of the input.
\<close>

definition dotNumber :: "string \<Rightarrow> string \<times> string" where
  "dotNumber s =
     (case s of
        c # r \<Rightarrow>
          (if c = CHR ''.'' \<and> takeWhile isDigit r \<noteq> []
           then (takeWhile isDigit r, dropWhile isDigit r)
           else ([], s))
      | [] \<Rightarrow> ([], s))"

text \<open>
  The tail \<^verbatim>\<open>(-PRE)?(\+META)?$\<close>: the pre-release and the metadata, or \<open>None\<close> when
  the input does not match.
\<close>

definition metaTail :: "string \<Rightarrow> string option" where
  "metaTail s =
     (case s of
        [] \<Rightarrow> Some []
      | c # r \<Rightarrow> (if c = CHR ''+'' \<and> isIdentifiers r then Some r else None))"

definition preTail :: "string \<Rightarrow> (string \<times> string) option" where
  "preTail s =
     (case s of
        c # r \<Rightarrow>
          (if c = CHR ''-''
           then (let p = takeWhile (\<lambda>x. x \<noteq> CHR ''+'') r
                 in if isIdentifiers p
                    then map_option (\<lambda>m. (p, m)) (metaTail (dropWhile (\<lambda>x. x \<noteq> CHR ''+'') r))
                    else None)
           else map_option (\<lambda>m. ([], m)) (metaTail s))
      | [] \<Rightarrow> Some ([], []))"

definition maxInt64 :: int where
  "maxInt64 = 9223372036854775807"

text \<open>
  \<^verbatim>\<open>NewVersion\<close> returns the pair \<^verbatim>\<open>(*Version, error)\<close>: the pointer is \<open>None\<close>
  (nil) exactly when the error is set.
\<close>

definition NewVersion :: "string \<Rightarrow> Version option \<times> error option" where
  "NewVersion v =
     (let s = (case v of c # r \<Rightarrow> (if c = CHR ''v'' then r else v) | [] \<Rightarrow> v);
          m1 = takeWhile isDigit s;
          (m2, r2) = dotNumber (dropWhile isDigit s);
          (m3, r3) = dotNumber r2
      in if m1 = [] then (None, Some ErrInvalidSemVer)
         else (case preTail r3 of
                 None \<Rightarrow> (None, Some ErrInvalidSemVer)
               | Some (p, m) \<Rightarrow>
                   if maxInt64 < decimalValue m1 \<or> maxInt64 < decimalValue m2
                      \<or> maxInt64 < decimalValue m3
                   then (None, Some ErrParsingVersionSegment)
                   else (Some \<lparr>major = decimalValue m1, minor = decimalValue m2,
                               patch = decimalValue m3, pre = p, metadata = m,
                               original = v\<rparr>, None)))"

text \<open>\<^verbatim>\<open>(*Version).String\<close>: the normalised text, without the leading \<^verbatim>\<open>v\<close>.\<close>

definition String :: "Version \<Rightarrow> string" where
  "String v =
     formatDecimal (major v) @ ''.'' @ formatDecimal (minor v) @ ''.'' @ formatDecimal (patch v)
     @ (if pre v \<noteq> [] then ''-'' @ pre v else [])
     @ (if metadata v \<noteq> [] then ''+'' @ metadata v else [])"

subsection \<open>Precedence\<close>

definition maxUint64 :: int where
  "maxUint64 = 18446744073709551615"

text \<open>\<^verbatim>\<open>strconv.ParseUint(s, 10, 64)\<close> succeeds.\<close>

definition isUint :: "string \<Rightarrow> bool" where
  "isUint s = (s \<noteq> [] \<and> list_all isDigit s \<and> decimalValue s \<le> maxUint64)"

definition comparePrePart :: "string \<Rightarrow> string \<Rightarrow> int" where
  "comparePrePart s o' =
     (if s = o' then 0
      else if s = [] then - 1
      else if o' = [] then 1
      else if \<not> isUint o' \<and> \<not> isUint s then (if bytesLess o' s then 1 else - 1)
      else if \<not> isUint o' then - 1
      else if \<not> isUint s then 1
      else if decimalValue o' < decimalValue s then 1 else - 1)"

fun compareParts :: "string list \<Rightarrow> string list \<Rightarrow> int" where
  "compareParts [] [] = 0"
| "compareParts (s # ss) [] =
     (if comparePrePart s [] \<noteq> 0 then comparePrePart s [] else compareParts ss [])"
| "compareParts [] (t # ts) =
     (if comparePrePart [] t \<noteq> 0 then comparePrePart [] t else compareParts [] ts)"
| "compareParts (s # ss) (t # ts) =
     (if comparePrePart s t \<noteq> 0 then comparePrePart s t else compareParts ss ts)"

definition comparePrerelease :: "string \<Rightarrow> string \<Rightarrow> int" where
  "comparePrerelease v o' = compareParts (Split v ''.'') (Split o' ''.'')"

definition compareSegment :: "int \<Rightarrow> int \<Rightarrow> int" where
  "compareSegment v o' = (if v < o' then - 1 else if o' < v then 1 else 0)"

definition Compare :: "Version \<Rightarrow> Version \<Rightarrow> int" where
  "Compare v o' =
     (if compareSegment (major v) (major o') \<noteq> 0 then compareSegment (major v) (major o')
      else if compareSegment (minor v) (minor o') \<noteq> 0 then compareSegment (minor v) (minor o')
      else if compareSegment (patch v) (patch o') \<noteq> 0 then compareSegment (patch v) (patch o')
      else if pre v = [] \<and> pre o' = [] then 0
      else if pre v = [] then 1
      else if pre o' = [] then - 1
      else comparePrerelease (pre v) (pre o'))"

definition LessThan :: "Version \<Rightarrow> Version \<Rightarrow> bool" where
  "LessThan v o' = (Compare v o' < 0)"

text \<open>
  \<^verbatim>\<open>sort.Sort(semver.Collection(vs))\<close> orders the slice by \<^verbatim>\<open>LessThan\<close>. Go does not
  fix the order of elements that compare equal; the model sorts by insertion.
\<close>

fun insertVersion :: "Version \<Rightarrow> Version list \<Rightarrow> Version list" where
  "insertVersion x [] = [x]"
| "insertVersion x (y # ys) = (if LessThan x y then x # y # ys else y # insertVersion x ys)"

definition sortVersions :: "Version list \<Rightarrow> Version list" where
  "sortVersions vs = foldr insertVersion vs []"

section \<open>Selecting a revision\<close>

text \<open>
  Of a \<^verbatim>\<open>v1beta1.DefinitionRevision\<close> the code reads \<^verbatim>\<open>Name\<close> and
  \<^verbatim>\<open>Spec.DefinitionType\<close>; \<^verbatim>\<open>common.DefinitionType\<close> is a Go string type.
\<close>

record DefinitionRevision =
  Name :: string
  DefinitionType :: string

text \<open>\<^verbatim>\<open>m[k]\<close> on a Go map of strings: the empty string for a missing key.\<close>

definition mapIndex :: "(string \<rightharpoonup> string) \<Rightarrow> string \<Rightarrow> string" where
  "mapIndex m k = (case m k of Some v \<Rightarrow> v | None \<Rightarrow> [])"

text \<open>
  The loop of \<^verbatim>\<open>getMatchingDefinitionRevision\<close> over \<^verbatim>\<open>revisionList.Items\<close>, with
  \<^verbatim>\<open>definitionVersions\<close> and \<^verbatim>\<open>orignalVersions\<close> as accumulators, followed by the
  code after the loop. \<^verbatim>\<open>strings.Split(...)[1]\<close> panics when the split has one piece;
  \<^verbatim>\<open>v.String()\<close> runs before \<^verbatim>\<open>err\<close> is looked at and dereferences \<^verbatim>\<open>v\<close>.
\<close>

fun matchRevisions ::
  "string \<Rightarrow> string \<Rightarrow> string \<Rightarrow> DefinitionRevision list \<Rightarrow> Version list
     \<Rightarrow> (string \<rightharpoonup> string) \<Rightarrow> string result" where
  "matchRevisions exactRevisionName definitionName definitionType [] definitionVersions orignalVersions =
     (if length definitionVersions = 0 then Ok []
      else let latestVersion = last (sortVersions definitionVersions)
           in Ok (definitionName @ ''-'' @ mapIndex orignalVersions (String latestVersion)))"
| "matchRevisions exactRevisionName definitionName definitionType (revision # items) definitionVersions orignalVersions =
     (if definitionType \<noteq> [] \<and> definitionType \<noteq> DefinitionType revision
      then matchRevisions exactRevisionName definitionName definitionType items
             definitionVersions orignalVersions
      else if Name revision = exactRevisionName then Ok exactRevisionName
      else if HasPrefix (Name revision) (exactRevisionName @ ''.'')
      then (case Split (Name revision) (definitionName @ ''-'') of
              s0 # version # rest \<Rightarrow>
                (case NewVersion version of
                   (None, err) \<Rightarrow> Panicked NilPointerDereference
                 | (Some v, err) \<Rightarrow>
                     (case err of
                        Some e \<Rightarrow> Failed e
                      | None \<Rightarrow>
                          matchRevisions exactRevisionName definitionName definitionType items
                            (definitionVersions @ [v])
                            (orignalVersions(String v \<mapsto> version))))
            | _ \<Rightarrow> Panicked IndexOutOfRange)
      else matchRevisions exactRevisionName definitionName definitionType items
             definitionVersions orignalVersions)"

definition getMatchingDefinitionRevision ::
  "string \<Rightarrow> string \<Rightarrow> DefinitionRevision list \<Rightarrow> string \<Rightarrow> string result" where
  "getMatchingDefinitionRevision exactRevisionName definitionName revisionList definitionType =
     matchRevisions exactRevisionName definitionName definitionType revisionList [] Map.empty"

section \<open>Declarations of other packages\<close>

text \<open>
  \<^verbatim>\<open>helper.go\<close> reads a package variable, constants and a validator that other
  packages declare (\<^verbatim>\<open>oam\<close>, \<^verbatim>\<open>types\<close>, \<^verbatim>\<open>common\<close>,
  \<^verbatim>\<open>k8s.io/apimachinery/pkg/util/validation\<close>). They are parameters of the model:
  no theorem depends on their values.
\<close>

record pkgs =
  SystemDefinitionNamespace :: string
  DefaultAppNamespace :: string
  AnnotationAutoUpdate :: string
  ComponentType :: string
  TraitType :: string
  PolicyType :: string
  WorkflowStepType :: string
  LabelComponentDefinitionName :: string
  LabelTraitDefinitionName :: string
  LabelPolicyDefinitionName :: string
  LabelWorkflowStepDefinitionName :: string
  IsQualifiedName :: "string \<Rightarrow> string list"

text \<open>The Go map \<^verbatim>\<open>DefinitionKindToNameLabel\<close>, read with the zero value for a missing key.\<close>

definition DefinitionKindToNameLabel :: "pkgs \<Rightarrow> string \<Rightarrow> string" where
  "DefinitionKindToNameLabel P definitionType =
     mapIndex (map_of
       [(ComponentType P, LabelComponentDefinitionName P),
        (TraitType P, LabelTraitDefinitionName P),
        (PolicyType P, LabelPolicyDefinitionName P),
        (WorkflowStepType P, LabelWorkflowStepDefinitionName P)]) definitionType"

section \<open>Namespace context\<close>

text \<open>
  Of the \<^verbatim>\<open>context.Context\<close> the code reads the values under its two keys; each is
  absent or a string.
\<close>

record Context =
  AppDefinitionNamespace :: "string option"
  XDefinitionNamespace :: "string option"

definition GetDefinitionNamespaceWithCtx :: "pkgs \<Rightarrow> Context \<Rightarrow> string" where
  "GetDefinitionNamespaceWithCtx P ctx =
     (case AppDefinitionNamespace ctx of
        None \<Rightarrow> SystemDefinitionNamespace P
      | Some app \<Rightarrow> app)"

definition GetXDefinitionNamespaceWithCtx :: "pkgs \<Rightarrow> Context \<Rightarrow> string" where
  "GetXDefinitionNamespaceWithCtx P ctx =
     (case XDefinitionNamespace ctx of
        Some xNs \<Rightarrow> (if length xNs > 0 then xNs else SystemDefinitionNamespace P)
      | None \<Rightarrow> SystemDefinitionNamespace P)"

definition SetNamespaceInCtx :: "pkgs \<Rightarrow> Context \<Rightarrow> string \<Rightarrow> Context" where
  "SetNamespaceInCtx P ctx namespace =
     ctx\<lparr>AppDefinitionNamespace :=
           Some (if namespace = [] then DefaultAppNamespace P else namespace)\<rparr>"

definition SetXDefinitionNamespaceInCtx :: "pkgs \<Rightarrow> Context \<Rightarrow> string \<Rightarrow> Context" where
  "SetXDefinitionNamespaceInCtx P ctx namespace =
     ctx\<lparr>XDefinitionNamespace :=
           Some (if namespace = [] then SystemDefinitionNamespace P else namespace)\<rparr>"

section \<open>The resource store\<close>

text \<open>
  The client reads a store that does not change during one call: \<^verbatim>\<open>Get\<close> maps a
  namespace (empty for none) and a name to an object or an error, \<^verbatim>\<open>List\<close> maps a
  namespace and one label (key and value) to the revisions carrying it or an error.
  The lookups by name also return the \<^verbatim>\<open>Get\<close> calls they made, in order, as pairs of
  namespace and name.
\<close>

record 'o Client =
  Get :: "string \<Rightarrow> string \<Rightarrow> api_error + 'o"
  List :: "string \<Rightarrow> string \<Rightarrow> string \<Rightarrow> api_error + DefinitionRevision list"

type_synonym call = "string \<times> string"

definition errorOf :: "api_error + 'o \<Rightarrow> api_error option" where
  "errorOf r = (case r of Inl e \<Rightarrow> Some e | Inr obj \<Rightarrow> None)"

text \<open>\<^verbatim>\<open>apierrors.IsNotFound(err)\<close>, false for a nil error.\<close>

definition isNotFound :: "api_error option \<Rightarrow> bool" where
  "isNotFound err = (case err of None \<Rightarrow> False | Some e \<Rightarrow> IsNotFound e)"

definition checkRequestNamespaceError :: "api_error option \<Rightarrow> bool" where
  "checkRequestNamespaceError err =
     (case err of
        None \<Rightarrow> False
      | Some e \<Rightarrow>
          ErrorText e = ''an empty namespace may not be set when a resource name is provided'')"

definition GetDefinitionFromNamespace ::
  "'o Client \<Rightarrow> string \<Rightarrow> string \<Rightarrow> (api_error + 'o) \<times> call list" where
  "GetDefinitionFromNamespace cli definitionName namespace =
     (case Get cli namespace definitionName of
        Inl err \<Rightarrow>
          (if IsNotFound err
           then (let newErr = Get cli [] definitionName
                 in if checkRequestNamespaceError (errorOf newErr)
                    then (Inl err, [(namespace, definitionName), ([], definitionName)])
                    else (newErr, [(namespace, definitionName), ([], definitionName)]))
           else (Inl err, [(namespace, definitionName)]))
      | Inr obj \<Rightarrow> (Inr obj, [(namespace, definitionName)]))"

text \<open>
  The loop of \<^verbatim>\<open>GetDefinition\<close> over the x-definition and the system namespace; \<open>err\<close>
  is the variable the loop assigns and the function returns after it.
\<close>

fun definitionLoop ::
  "'o Client \<Rightarrow> string \<Rightarrow> string list \<Rightarrow> api_error + 'o \<Rightarrow> call list
     \<Rightarrow> (api_error + 'o) \<times> call list" where
  "definitionLoop cli definitionName [] err calls = (err, calls)"
| "definitionLoop cli definitionName (ns # nss) err calls =
     (case GetDefinitionFromNamespace cli definitionName ns of
        (err', calls') \<Rightarrow>
          (if \<not> isNotFound (errorOf err') then (err', calls @ calls')
           else definitionLoop cli definitionName nss err' (calls @ calls')))"

definition GetDefinition ::
  "pkgs \<Rightarrow> Context \<Rightarrow> 'o Client \<Rightarrow> string \<Rightarrow> (api_error + 'o) \<times> call list" where
  "GetDefinition P ctx cli definitionName =
     (let appNs = GetDefinitionNamespaceWithCtx P ctx
      in case Get cli appNs definitionName of
           Inl err \<Rightarrow>
             (if \<not> IsNotFound err then (Inl err, [(appNs, definitionName)])
              else definitionLoop cli definitionName
                     [GetXDefinitionNamespaceWithCtx P ctx, SystemDefinitionNamespace P]
                     (Inl err) [(appNs, definitionName)])
         | Inr obj \<Rightarrow> (Inr obj, [(appNs, definitionName)]))"

section \<open>Revision names and the latest revision\<close>

text \<open>
  \<^verbatim>\<open>ConvertDefinitionRevName\<close>. With an error Go also returns the name it built; the
  callers drop it, and so does the model. The error keeps the name its message shows
  and the validator's messages.
\<close>

definition ConvertDefinitionRevName :: "pkgs \<Rightarrow> string \<Rightarrow> string result" where
  "ConvertDefinitionRevName P definitionName =
     (case Split definitionName ''@v'' of
        [] \<Rightarrow> Panicked IndexOutOfRange
      | defName # rest \<Rightarrow>
          (if length (defName # rest) = 1 \<or> length defName = 0
           then (let errs = IsQualifiedName P definitionName
                 in if length errs \<noteq> 0
                    then Failed (ErrInvalidRevisionName definitionName errs)
                    else Ok definitionName)
           else (let revisionName = TrimPrefix definitionName (defName @ ''@v'');
                     defRevName = defName @ ''-v'' @ revisionName;
                     errs = IsQualifiedName P defRevName
                 in if length errs \<noteq> 0
                    then Failed (ErrInvalidRevisionName defName errs)
                    else Ok defRevName)))"

definition fetchAllRevisionsForDefinitionName ::
  "pkgs \<Rightarrow> 'o Client \<Rightarrow> string \<Rightarrow> string \<Rightarrow> string
     \<Rightarrow> api_error + DefinitionRevision list" where
  "fetchAllRevisionsForDefinitionName P cli ns definitionName definitionType =
     List cli ns (DefinitionKindToNameLabel P definitionType) definitionName"

text \<open>
  What the loop of \<^verbatim>\<open>GetLatestDefinitionRevisionName\<close> does with the outcome of
  \<^verbatim>\<open>getMatchingDefinitionRevision\<close>: the name is returned when
  \<^verbatim>\<open>err == nil && matchedDefinitionRevision != ""\<close>, otherwise the loop goes on to the
  next namespace (\<open>None\<close>). A panic of the selection ends the call.
\<close>

definition matchOutcome :: "string result \<Rightarrow> string result option" where
  "matchOutcome outcome =
     (case outcome of
        Panicked p \<Rightarrow> Some (Panicked p)
      | Failed err \<Rightarrow> None
      | Ok matchedDefinitionRevision \<Rightarrow>
          (if matchedDefinitionRevision \<noteq> [] then Some (Ok matchedDefinitionRevision)
           else None))"

text \<open>The loop of \<^verbatim>\<open>GetLatestDefinitionRevisionName\<close> over the namespaces.\<close>

fun latestRevisionLoop ::
  "pkgs \<Rightarrow> 'o Client \<Rightarrow> string \<Rightarrow> string \<Rightarrow> string \<Rightarrow> string list \<Rightarrow> string result" where
  "latestRevisionLoop P cli definitionName revisionName definitionType [] =
     Failed (ErrFindingRevision definitionName definitionType)"
| "latestRevisionLoop P cli definitionName revisionName definitionType (ns # nss) =
     (case fetchAllRevisionsForDefinitionName P cli ns definitionName definitionType of
        Inl err \<Rightarrow> Failed (ErrStore err)
      | Inr revisionListForDefinition \<Rightarrow>
          (case matchOutcome
                  (getMatchingDefinitionRevision revisionName definitionName
                     revisionListForDefinition definitionType) of
             Some outcome \<Rightarrow> outcome
           | None \<Rightarrow>
               latestRevisionLoop P cli definitionName revisionName definitionType nss))"

definition GetLatestDefinitionRevisionName ::
  "pkgs \<Rightarrow> Context \<Rightarrow> 'o Client \<Rightarrow> string \<Rightarrow> string \<Rightarrow> string \<Rightarrow> string result" where
  "GetLatestDefinitionRevisionName P ctx cli definitionName revisionName definitionType =
     latestRevisionLoop P cli definitionName revisionName definitionType
       [GetDefinitionNamespaceWithCtx P ctx, SystemDefinitionNamespace P]"

text \<open>
  \<^verbatim>\<open>fetchDefinitionRevision\<close> returns \<^verbatim>\<open>(isLatestRevision, defRev, err)\<close>; the model
  returns the flag and the revision, or the error. The client is taken to be a full
  \<^verbatim>\<open>client.Client\<close> (the type assertion of the auto-update path holds).
\<close>

definition fetchDefinitionRevision ::
  "pkgs \<Rightarrow> Context \<Rightarrow> DefinitionRevision Client \<Rightarrow> string \<Rightarrow> string
     \<Rightarrow> (string \<rightharpoonup> string) \<Rightarrow> (bool \<times> DefinitionRevision option) result" where
  "fetchDefinitionRevision P ctx cli definitionName definitionType annotations =
     (if \<not> Contains definitionName ''@'' then Ok (True, None)
      else case ConvertDefinitionRevName P definitionName of
             Panicked p \<Rightarrow> Panicked p
           | Failed err \<Rightarrow> Failed err
           | Ok defRevName \<Rightarrow>
               (case Split definitionName ''@'' of
                  [] \<Rightarrow> Panicked IndexOutOfRange
                | defName # rest \<Rightarrow>
                    (case (if annotations (AnnotationAutoUpdate P) = Some ''true''
                           then GetLatestDefinitionRevisionName P ctx cli defName defRevName
                                  definitionType
                           else Ok defRevName) of
                       Panicked p \<Rightarrow> Panicked p
                     | Failed err \<Rightarrow> Failed err
                     | Ok defRevName' \<Rightarrow>
                         (case fst (GetDefinition P ctx cli defRevName') of
                            Inl err \<Rightarrow> Failed (ErrStore err)
                          | Inr defRev \<Rightarrow> Ok (False, Some defRev)))))"

section \<open>Stores and settings of the worked examples\<close>

text \<open>
  The values below are used only where a statement is evaluated on a concrete input.
  The validator of the examples accepts the names that are not empty and consist of
  letters, digits, dashes, underscores and dots.
\<close>

definition exampleIsQualifiedName :: "string \<Rightarrow> string list" where
  "exampleIsQualifiedName value =
     (if value \<noteq> [] \<and> list_all (\<lambda>c. isIdentChar c \<or> c = CHR ''_'' \<or> c = CHR ''.'') value
      then [] else [''name part must consist of alphanumeric characters''])"

definition examplePkgs :: pkgs where
  "examplePkgs =
     \<lparr>SystemDefinitionNamespace = ''vela-system'',
      DefaultAppNamespace = ''default'',
      AnnotationAutoUpdate = ''app.oam.dev/autoUpdate'',
      ComponentType = ''Component'',
      TraitType = ''Trait'',
      PolicyType = ''Policy'',
      WorkflowStepType = ''WorkflowStep'',
      LabelComponentDefinitionName = ''componentdefinition.oam.dev/name'',
      LabelTraitDefinitionName = ''traitdefinition.oam.dev/name'',
      LabelPolicyDefinitionName = ''policydefinition.oam.dev/name'',
      LabelWorkflowStepDefinitionName = ''workflowstepdefinition.oam.dev/name'',
      IsQualifiedName = exampleIsQualifiedName\<rparr>"

definition exampleContext :: Context where
  "exampleContext =
     \<lparr>AppDefinitionNamespace = Some ''default'', XDefinitionNamespace = Some ''x-definitions''\<rparr>"

text \<open>
  A store of namespaced resources that holds nothing: a lookup in a namespace reports
  not-found, a lookup without a namespace is refused.
\<close>

definition emptyStore :: "unit Client" where
  "emptyStore =
     \<lparr>Get = (\<lambda>namespace name.
         if namespace = []
         then Inl (ApiError False
                ''an empty namespace may not be set when a resource name is provided'')
         else Inl (ApiError True (name @ '' not found in '' @ namespace))),
      List = (\<lambda>namespace label value. Inr [])\<rparr>"

text \<open>
  A store whose application namespace \<^verbatim>\<open>default\<close> holds the given revisions, listed
  under the component label of the definition \<^verbatim>\<open>app\<close>, and a store that refuses every
  request.
\<close>

definition storedRevisions :: "DefinitionRevision list \<Rightarrow> DefinitionRevision Client" where
  "storedRevisions revisions =
     \<lparr>Get = (\<lambda>namespace name.
         case filter (\<lambda>revision. Name revision = name) revisions of
           revision # others \<Rightarrow>
             (if namespace = ''default'' then Inr revision
              else Inl (ApiError True (name @ '' not found in '' @ namespace)))
         | [] \<Rightarrow> Inl (ApiError True (name @ '' not found in '' @ namespace))),
      List = (\<lambda>namespace label value.
         if namespace = ''default'' \<and> label = ''componentdefinition.oam.dev/name''
            \<and> value = ''app''
         then Inr revisions else Inr [])\<rparr>"

definition failingStore :: "DefinitionRevision Client" where
  "failingStore =
     \<lparr>Get = (\<lambda>namespace name. Inl (ApiError False ''forbidden'')),
      List = (\<lambda>namespace label value. Inl (ApiError False ''forbidden''))\<rparr>"

text \<open>
  A store of the old clusters, whose definitions have no namespace: a lookup in a
  namespace reports not-found, a lookup without a namespace finds the object.
\<close>

definition legacyStore :: "unit Client" where
  "legacyStore =
     \<lparr>Get = (\<lambda>namespace name.
         if namespace = [] then Inr ()
         else Inl (ApiError True (name @ '' not found in '' @ namespace))),
      List = (\<lambda>namespace label value. Inr [])\<rparr>"

text \<open>The annotations that switch the auto-update on, under the key of the examples.\<close>

definition autoUpdateOn :: "string \<rightharpoonup> string" where
  "autoUpdateOn = [''app.oam.dev/autoUpdate'' \<mapsto> ''true'']"

section \<open>Notions of the statements\<close>

text \<open>
  A revision passes the kind test of the loop when no kind is requested (the empty
  string) or its stored kind is the requested one.
\<close>

definition eligible :: "string \<Rightarrow> DefinitionRevision \<Rightarrow> bool" where
  "eligible definitionType revision =
     (definitionType = [] \<or> definitionType = DefinitionType revision)"

text \<open>The name of the revision extends the requested token by a dot.\<close>

definition extendsToken :: "string \<Rightarrow> DefinitionRevision \<Rightarrow> bool" where
  "extendsToken exactRevisionName revision =
     HasPrefix (Name revision) (exactRevisionName @ ''.'')"

text \<open>The revisions whose version the loop parses, unless it returns before.\<close>

definition considered :: "string \<Rightarrow> string \<Rightarrow> DefinitionRevision \<Rightarrow> bool" where
  "considered exactRevisionName definitionType revision =
     (eligible definitionType revision \<and> extendsToken exactRevisionName revision)"

text \<open>
  The version suffix the loop takes from a name, \<^verbatim>\<open>strings.Split(name, base+"-")[1]\<close>,
  when that piece exists, and the version it parses to, when it parses.
\<close>

definition versionText :: "string \<Rightarrow> DefinitionRevision \<Rightarrow> string option" where
  "versionText definitionName revision =
     (case Split (Name revision) (definitionName @ ''-'') of
        s0 # version # rest \<Rightarrow> Some version
      | _ \<Rightarrow> None)"

definition parsedVersion :: "string \<Rightarrow> DefinitionRevision \<Rightarrow> Version option" where
  "parsedVersion definitionName revision =
     (case versionText definitionName revision of
        None \<Rightarrow> None
      | Some version \<Rightarrow> fst (NewVersion version))"

text \<open>The numeric order of versions by major, then minor, then patch number.\<close>

definition numbersLe :: "Version \<Rightarrow> Version \<Rightarrow> bool" where
  "numbersLe v w =
     (major v < major w \<or> (major v = major w \<and>
        (minor v < minor w \<or> (minor v = minor w \<and> patch v \<le> patch w))))"

text \<open>
  The order the statements use: the numeric order of the numbers, and among versions
  with the same numbers a version without pre-release text is not below one with it.
  It leaves open how two pre-releases of the same numbers compare.
\<close>

definition precedenceLe :: "Version \<Rightarrow> Version \<Rightarrow> bool" where
  "precedenceLe v w =
     (numbersLe v w \<and> (numbersLe w v \<longrightarrow> pre w = [] \<or> pre v \<noteq> []))"

definition versionNumbers :: "string \<Rightarrow> DefinitionRevision \<Rightarrow> (int \<times> int \<times> int) option" where
  "versionNumbers definitionName revision =
     map_option (\<lambda>v. (major v, minor v, patch v)) (parsedVersion definitionName revision)"

subsection \<open>Auxiliary notions of the proofs\<close>

text \<open>What \<^verbatim>\<open>String\<close> appends to the three numbers.\<close>

definition versionTail :: "Version \<Rightarrow> string" where
  "versionTail v =
     (if pre v \<noteq> [] then ''-'' @ pre v else [])
     @ (if metadata v \<noteq> [] then ''+'' @ metadata v else [])"

text \<open>The three digit strings at the head of a normalised version text.\<close>

definition numbersOf :: "string \<Rightarrow> string \<times> string \<times> string" where
  "numbersOf s =
     (let a = takeWhile isDigit s; r1 = tl (dropWhile isDigit s);
          b = takeWhile isDigit r1; r2 = tl (dropWhile isDigit r1);
          c = takeWhile isDigit r2
      in (a, b, c))"

text \<open>The code after the loop, and the entry the loop stores for a revision.\<close>

definition finish :: "string \<Rightarrow> Version list \<Rightarrow> (string \<rightharpoonup> string) \<Rightarrow> string result" where
  "finish d vs orig =
     (if vs = [] then Ok []
      else Ok (d @ ''-'' @ mapIndex orig (String (last (sortVersions vs)))))"

definition recorded :: "string \<Rightarrow> DefinitionRevision \<Rightarrow> string \<times> string" where
  "recorded d r = (String (the (parsedVersion d r)), the (versionText d r))"


section \<open>The selection loop\<close>

lemma NewVersion_cases:
  "(\<exists>e. NewVersion t = (None, Some e)) \<or> (\<exists>v. NewVersion t = (Some v, None))"
  unfolding NewVersion_def Let_def
  by (auto split: prod.splits option.splits)

lemma matchRevisions_Cons:
  "matchRevisions e d ty (r # items) vs orig =
     (if \<not> eligible ty r then matchRevisions e d ty items vs orig
      else if Name r = e then Ok e
      else if extendsToken e r
      then (case versionText d r of
              None \<Rightarrow> Panicked IndexOutOfRange
            | Some t \<Rightarrow>
                (case fst (NewVersion t) of
                   None \<Rightarrow> Panicked NilPointerDereference
                 | Some v \<Rightarrow> matchRevisions e d ty items (vs @ [v]) (orig(String v \<mapsto> t))))
      else matchRevisions e d ty items vs orig)"
proof -
  have nv: "\<And>t. (\<exists>e. NewVersion t = (None, Some e)) \<or> (\<exists>v. NewVersion t = (Some v, None))"
    by (rule NewVersion_cases)
  show ?thesis
  proof (cases "Split (Name r) (d @ ''-'')")
    case Nil
    then show ?thesis by (simp add: eligible_def extendsToken_def versionText_def)
  next
    case (Cons s0 l)
    show ?thesis
    proof (cases l)
      case Nil
      with Cons show ?thesis by (simp add: eligible_def extendsToken_def versionText_def)
    next
      case (Cons t l')
      with \<open>Split (Name r) (d @ ''-'') = s0 # l\<close> nv[of t] show ?thesis
        by (auto simp add: eligible_def extendsToken_def versionText_def)
    qed
  qed
qed

lemma isDigit_digitChar: "0 \<le> d \<Longrightarrow> d < 10 \<Longrightarrow> isDigit (digitChar d)"
  by (simp add: isDigit_def digitChar_def)

lemma digitVal_digitChar: "0 \<le> d \<Longrightarrow> d < 10 \<Longrightarrow> digitVal (digitChar d) = d"
  by (simp add: digitVal_def digitChar_def)

lemma decimalValue_snoc: "decimalValue (ds @ [c]) = 10 * decimalValue ds + digitVal c"
  by (simp add: decimalValue_def)

lemma formatNat_digits: "0 \<le> n \<Longrightarrow> list_all isDigit (formatNat n) \<and> formatNat n \<noteq> []"
proof (induction n rule: formatNat.induct)
  case (1 n)
  show ?case
  proof (cases "n < 10")
    case True
    with 1 show ?thesis by (subst formatNat.simps, subst formatNat.simps) (simp add: isDigit_digitChar)
  next
    case False
    with 1 have "list_all isDigit (formatNat (n div 10)) \<and> formatNat (n div 10) \<noteq> []" by simp
    moreover have "isDigit (digitChar (n mod 10))" by (simp add: isDigit_digitChar)
    ultimately show ?thesis using False
      by (subst formatNat.simps, subst (2) formatNat.simps) simp
  qed
qed

lemma decimalValue_formatNat: "0 \<le> n \<Longrightarrow> decimalValue (formatNat n) = n"
proof (induction n rule: formatNat.induct)
  case (1 n)
  show ?case
  proof (cases "n < 10")
    case True
    with 1 show ?thesis
      by (subst formatNat.simps) (simp add: decimalValue_def digitVal_digitChar)
  next
    case False
    with 1 have "decimalValue (formatNat (n div 10)) = n div 10" by simp
    then show ?thesis using False
      by (subst formatNat.simps) (simp add: decimalValue_snoc digitVal_digitChar)
  qed
qed

lemma takeWhile_digits:
  "list_all isDigit a \<Longrightarrow> r = [] \<or> \<not> isDigit (hd r) \<Longrightarrow> takeWhile isDigit (a @ r) = a"
  by (cases r) (auto simp: list_all_iff takeWhile_append2)

lemma dropWhile_digits:
  "list_all isDigit a \<Longrightarrow> r = [] \<or> \<not> isDigit (hd r) \<Longrightarrow> dropWhile isDigit (a @ r) = r"
  by (cases r) (auto simp: list_all_iff dropWhile_append2)

lemma versionTail_head: "versionTail v = [] \<or> \<not> isDigit (hd (versionTail v))"
  by (simp add: versionTail_def isDigit_def)

lemma String_parts:
  "0 \<le> major v \<Longrightarrow> 0 \<le> minor v \<Longrightarrow> 0 \<le> patch v \<Longrightarrow>
   String v = formatNat (major v) @ CHR ''.'' # formatNat (minor v) @ CHR ''.'' #
              formatNat (patch v) @ versionTail v"
  by (simp add: String_def formatDecimal_def versionTail_def)

lemma numbersOf_String:
  assumes "0 \<le> major v" "0 \<le> minor v" "0 \<le> patch v"
  shows "numbersOf (String v) = (formatNat (major v), formatNat (minor v), formatNat (patch v))"
proof -
  have dot: "\<not> isDigit (CHR ''.'')" by (simp add: isDigit_def)
  have a: "list_all isDigit (formatNat (major v))" using assms formatNat_digits by blast
  have b: "list_all isDigit (formatNat (minor v))" using assms formatNat_digits by blast
  have c: "list_all isDigit (formatNat (patch v))" using assms formatNat_digits by blast
  let ?r2 = "formatNat (patch v) @ versionTail v"
  let ?r1 = "formatNat (minor v) @ CHR ''.'' # ?r2"
  have s: "String v = formatNat (major v) @ CHR ''.'' # ?r1"
    using assms by (simp add: String_parts)
  have t1: "takeWhile isDigit (String v) = formatNat (major v)"
    unfolding s using a dot by (intro takeWhile_digits) auto
  have d1: "dropWhile isDigit (String v) = CHR ''.'' # ?r1"
    unfolding s using a dot by (intro dropWhile_digits) auto
  have t2: "takeWhile isDigit ?r1 = formatNat (minor v)"
    using b dot by (intro takeWhile_digits) auto
  have d2: "dropWhile isDigit ?r1 = CHR ''.'' # ?r2"
    using b dot by (intro dropWhile_digits) auto
  have t3: "takeWhile isDigit ?r2 = formatNat (patch v)"
    using c versionTail_head by (intro takeWhile_digits) auto
  show ?thesis
    by (simp add: numbersOf_def Let_def t1 d1 t2 d2 t3)
qed

lemma String_numbers:
  assumes "String v = String w"
    and "0 \<le> major v" "0 \<le> minor v" "0 \<le> patch v"
    and "0 \<le> major w" "0 \<le> minor w" "0 \<le> patch w"
  shows "major v = major w \<and> minor v = minor w \<and> patch v = patch w"
proof -
  have "numbersOf (String v) = numbersOf (String w)" using assms(1) by simp
  then have "(formatNat (major v), formatNat (minor v), formatNat (patch v))
      = (formatNat (major w), formatNat (minor w), formatNat (patch w))"
    unfolding numbersOf_String[OF assms(2-4)] numbersOf_String[OF assms(5-7)] .
  then have eq: "formatNat (major v) = formatNat (major w)"
      "formatNat (minor v) = formatNat (minor w)"
      "formatNat (patch v) = formatNat (patch w)"
    by simp_all
  have "decimalValue (formatNat (major v)) = decimalValue (formatNat (major w))"
       "decimalValue (formatNat (minor v)) = decimalValue (formatNat (minor w))"
       "decimalValue (formatNat (patch v)) = decimalValue (formatNat (patch w))"
    using eq by simp_all
  then show ?thesis using assms by (simp add: decimalValue_formatNat)
qed

lemma digitVal_nonneg: "isDigit c \<Longrightarrow> 0 \<le> digitVal c"
  by (simp add: isDigit_def digitVal_def)

lemma foldl_decimal_nonneg:
  "list_all isDigit ds \<Longrightarrow> 0 \<le> a \<Longrightarrow> 0 \<le> foldl (\<lambda>a c. 10 * a + digitVal c) a ds"
  by (induction ds arbitrary: a) (auto simp: digitVal_nonneg)

lemma decimalValue_nonneg: "list_all isDigit ds \<Longrightarrow> 0 \<le> decimalValue ds"
  by (simp add: decimalValue_def foldl_decimal_nonneg)

lemma takeWhile_all_digits: "list_all isDigit (takeWhile isDigit s)"
  by (induction s) auto

lemma dotNumber_digits: "list_all isDigit (fst (dotNumber s))"
  by (auto simp: dotNumber_def takeWhile_all_digits split: list.splits)

lemma NewVersion_nonneg:
  assumes "fst (NewVersion t) = Some v"
  shows "0 \<le> major v \<and> 0 \<le> minor v \<and> 0 \<le> patch v"
proof -
  obtain s where s: "s = (case t of c # r \<Rightarrow> (if c = CHR ''v'' then r else t) | [] \<Rightarrow> t)" by simp
  obtain m2 r2 where d2: "dotNumber (dropWhile isDigit s) = (m2, r2)" by fastforce
  obtain m3 r3 where d3: "dotNumber r2 = (m3, r3)" by fastforce
  have m2: "list_all isDigit m2" using dotNumber_digits[of "dropWhile isDigit s"] d2 by simp
  have m3: "list_all isDigit m3" using dotNumber_digits[of r2] d3 by simp
  from assms d2 d3 have "major v = decimalValue (takeWhile isDigit s) \<and> minor v = decimalValue m2
      \<and> patch v = decimalValue m3"
    unfolding NewVersion_def Let_def s[symmetric]
    by (auto split: if_splits option.splits prod.splits)
  then show ?thesis
    using m2 m3 takeWhile_all_digits[of s] by (simp add: decimalValue_nonneg)
qed

lemma numbersLe_refl: "numbersLe v v"
  by (simp add: numbersLe_def)

lemma numbersLe_trans: "numbersLe u v \<Longrightarrow> numbersLe v w \<Longrightarrow> numbersLe u w"
  by (auto simp: numbersLe_def)

lemma numbersLe_antisym:
  "numbersLe v w \<Longrightarrow> numbersLe w v \<Longrightarrow>
   major v = major w \<and> minor v = minor w \<and> patch v = patch w"
  by (auto simp: numbersLe_def)

lemma precedenceLe_refl: "precedenceLe v v"
  by (simp add: precedenceLe_def numbersLe_def)

lemma precedenceLe_trans:
  assumes "precedenceLe u v" and "precedenceLe v w"
  shows "precedenceLe u w"
proof -
  from assms have uv: "numbersLe u v" and vw: "numbersLe v w"
    by (simp_all add: precedenceLe_def)
  then have uw: "numbersLe u w" by (rule numbersLe_trans)
  have "pre w = [] \<or> pre u \<noteq> []" if wu: "numbersLe w u"
  proof -
    from wu uv have wv: "numbersLe w v" by (rule numbersLe_trans)
    from vw wu have vu: "numbersLe v u" by (rule numbersLe_trans)
    from assms(2) wv have 1: "pre w = [] \<or> pre v \<noteq> []" by (simp add: precedenceLe_def)
    from assms(1) vu have 2: "pre v = [] \<or> pre u \<noteq> []" by (simp add: precedenceLe_def)
    from 1 2 show ?thesis by blast
  qed
  with uw show ?thesis by (simp add: precedenceLe_def)
qed

lemma precedenceLe_numbersLe: "precedenceLe v w \<Longrightarrow> numbersLe v w"
  by (simp add: precedenceLe_def)

lemma LessThan_precedenceLe: "LessThan x y \<Longrightarrow> precedenceLe x y"
  by (auto simp: LessThan_def Compare_def compareSegment_def precedenceLe_def numbersLe_def
      split: if_splits)

lemma not_LessThan_precedenceLe: "\<not> LessThan x y \<Longrightarrow> precedenceLe y x"
  by (auto simp: LessThan_def Compare_def compareSegment_def precedenceLe_def numbersLe_def
      split: if_splits)

lemma set_insertVersion: "set (insertVersion x ys) = insert x (set ys)"
  by (induction ys) auto

lemma sorted_insertVersion:
  "sorted_wrt precedenceLe ys \<Longrightarrow> sorted_wrt precedenceLe (insertVersion x ys)"
proof (induction ys)
  case Nil
  then show ?case by simp
next
  case (Cons y ys)
  show ?case
  proof (cases "LessThan x y")
    case True
    then have "precedenceLe x y" by (rule LessThan_precedenceLe)
    with Cons.prems True show ?thesis
      by (auto intro: precedenceLe_trans)
  next
    case False
    then have "precedenceLe y x" by (rule not_LessThan_precedenceLe)
    with Cons False show ?thesis
      by (auto simp: set_insertVersion)
  qed
qed

lemma set_sortVersions: "set (sortVersions vs) = set vs"
  by (induction vs) (simp_all add: sortVersions_def set_insertVersion)

lemma sorted_sortVersions: "sorted_wrt precedenceLe (sortVersions vs)"
  by (induction vs) (simp_all add: sortVersions_def sorted_insertVersion)

lemma sorted_wrt_last:
  "sorted_wrt P xs \<Longrightarrow> x \<in> set xs \<Longrightarrow> x = last xs \<or> P x (last xs)"
  by (induction xs) (auto split: if_splits)

lemma last_sortVersions:
  assumes "vs \<noteq> []"
  shows "last (sortVersions vs) \<in> set vs"
    and "\<And>v. v \<in> set vs \<Longrightarrow> precedenceLe v (last (sortVersions vs))"
proof -
  have ne: "sortVersions vs \<noteq> []"
    using assms set_sortVersions[of vs] by (cases "sortVersions vs") auto
  then have "last (sortVersions vs) \<in> set (sortVersions vs)" by (rule last_in_set)
  then show "last (sortVersions vs) \<in> set vs" by (simp add: set_sortVersions)
  fix v assume "v \<in> set vs"
  then have "v \<in> set (sortVersions vs)" by (simp add: set_sortVersions)
  with sorted_sortVersions[of vs]
  have "v = last (sortVersions vs) \<or> precedenceLe v (last (sortVersions vs))"
    by (rule sorted_wrt_last)
  then show "precedenceLe v (last (sortVersions vs))" by (auto simp: precedenceLe_refl)
qed

declare matchRevisions.simps(2) [simp del]

lemma matchRevisions_filter:
  "matchRevisions e d ty (filter (eligible ty) items) vs orig = matchRevisions e d ty items vs orig"
proof (induction items arbitrary: vs orig)
  case Nil
  show ?case by simp
next
  case (Cons r items)
  show ?case
  proof (cases "eligible ty r")
    case False
    then show ?thesis using Cons.IH by (simp add: matchRevisions_Cons)
  next
    case True
    then have "matchRevisions e d ty (filter (eligible ty) (r # items)) vs orig
        = matchRevisions e d ty (r # filter (eligible ty) items) vs orig" by simp
    also have "\<dots> = matchRevisions e d ty (r # items) vs orig"
      by (simp only: matchRevisions_Cons Cons.IH)
    finally show ?thesis .
  qed
qed

lemma matchRevisions_not_Failed: "matchRevisions e d ty items vs orig \<noteq> Failed err"
proof (induction items arbitrary: vs orig)
  case Nil
  show ?case by (simp add: Let_def)
next
  case (Cons r items)
  show ?case
    using Cons.IH by (simp add: matchRevisions_Cons split: option.splits)
qed

lemma matchRevisions_exact:
  assumes "items = before @ r # after"
    and "eligible ty r" and "Name r = e"
    and "\<forall>r' \<in> set before. considered e ty r' \<longrightarrow> parsedVersion d r' \<noteq> None"
  shows "matchRevisions e d ty items vs orig = Ok e"
  using assms
proof (induction before arbitrary: items vs orig)
  case Nil
  then show ?case by (simp add: matchRevisions_Cons)
next
  case (Cons b before)
  have IH: "\<And>vs orig. matchRevisions e d ty (before @ r # after) vs orig = Ok e"
    using Cons.IH[OF refl] Cons.prems by simp
  have "considered e ty b \<longrightarrow> parsedVersion d b \<noteq> None" using Cons.prems by simp
  then show ?case
    unfolding Cons.prems(1)
    by (auto simp: matchRevisions_Cons IH considered_def parsedVersion_def split: option.splits)
qed

lemma matchRevisions_all:
  assumes "\<forall>r \<in> set items. eligible ty r \<longrightarrow> Name r \<noteq> e"
    and "\<forall>r \<in> set items. considered e ty r \<longrightarrow> parsedVersion d r \<noteq> None"
  shows "matchRevisions e d ty items vs orig =
           finish d (vs @ map (\<lambda>r. the (parsedVersion d r)) (filter (considered e ty) items))
             (orig ++ map_of (rev (map (recorded d) (filter (considered e ty) items))))"
  using assms
proof (induction items arbitrary: vs orig)
  case Nil
  show ?case by (simp add: finish_def Let_def)
next
  case (Cons r items)
  have IH: "\<And>vs orig. matchRevisions e d ty items vs orig =
           finish d (vs @ map (\<lambda>r. the (parsedVersion d r)) (filter (considered e ty) items))
             (orig ++ map_of (rev (map (recorded d) (filter (considered e ty) items))))"
    using Cons.IH Cons.prems by simp
  have ne: "eligible ty r \<longrightarrow> Name r \<noteq> e" using Cons.prems by simp
  have pv: "considered e ty r \<longrightarrow> parsedVersion d r \<noteq> None" using Cons.prems by simp
  show ?case
  proof (cases "considered e ty r")
    case False
    then have "\<not> eligible ty r \<or> \<not> extendsToken e r" by (simp add: considered_def)
    with ne False show ?thesis
      by (auto simp: matchRevisions_Cons IH)
  next
    case True
    then have ee: "eligible ty r" "extendsToken e r" by (simp_all add: considered_def)
    from True pv obtain v where v: "parsedVersion d r = Some v" by auto
    then obtain t where t: "versionText d r = Some t" "fst (NewVersion t) = Some v"
      by (auto simp: parsedVersion_def split: option.splits)
    have step: "matchRevisions e d ty (r # items) vs orig =
        matchRevisions e d ty items (vs @ [v]) (orig(String v \<mapsto> t))"
      using ee ne t by (simp add: matchRevisions_Cons)
    have m: "orig(String v \<mapsto> t) ++ map_of (rev (map (recorded d) (filter (considered e ty) items)))
        = orig ++ map_of (rev (map (recorded d) (filter (considered e ty) (r # items))))"
    proof -
      have "orig(String v \<mapsto> t) = orig ++ map_of [recorded d r]"
        by (simp add: recorded_def v t)
      then show ?thesis using True
        by (simp only: filter.simps if_True list.map rev.simps map_of_append map_add_assoc)
    qed
    show ?thesis
      unfolding step IH m using True v by simp
  qed
qed

lemma map_of_rev_key:
  assumes "k \<in> fst ` set ps"
  shows "\<exists>t. (k, t) \<in> set ps \<and> (m ++ map_of (rev ps)) k = Some t"
proof -
  from assms have "k \<in> fst ` set (rev ps)" by simp
  then obtain t where t: "map_of (rev ps) k = Some t"
    by (metis map_of_eq_None_iff not_Some_eq)
  then have "(k, t) \<in> set (rev ps)" by (rule map_of_SomeD)
  with t show ?thesis by (auto simp: map_add_def)
qed

lemma parsedVersion_nonneg:
  "parsedVersion d r = Some v \<Longrightarrow> 0 \<le> major v \<and> 0 \<le> minor v \<and> 0 \<le> patch v"
  by (auto simp: parsedVersion_def split: option.splits dest: NewVersion_nonneg)

lemma precedenceLe_same:
  "major v = major w \<Longrightarrow> minor v = minor w \<Longrightarrow> patch v = patch w \<Longrightarrow>
   (pre v = []) = (pre w = []) \<Longrightarrow> precedenceLe u w \<Longrightarrow> precedenceLe u v"
  by (simp add: precedenceLe_def numbersLe_def)

lemma versionTail_pre: "versionTail v = versionTail w \<Longrightarrow> (pre v = []) = (pre w = [])"
  by (auto simp: versionTail_def split: if_splits)

lemma String_pre:
  assumes "String v = String w"
    and "0 \<le> major v" "0 \<le> minor v" "0 \<le> patch v"
    and "0 \<le> major w" "0 \<le> minor w" "0 \<le> patch w"
  shows "(pre v = []) = (pre w = [])"
proof -
  have n: "major v = major w \<and> minor v = minor w \<and> patch v = patch w"
    using assms by (rule String_numbers)
  have "String v = formatNat (major v) @ CHR ''.'' # formatNat (minor v) @ CHR ''.'' #
      formatNat (patch v) @ versionTail v"
    using assms(2-4) by (rule String_parts)
  moreover have "String w = formatNat (major v) @ CHR ''.'' # formatNat (minor v) @ CHR ''.'' #
      formatNat (patch v) @ versionTail w"
    using String_parts[OF assms(5-7)] n by simp
  ultimately have "versionTail v = versionTail w" using assms(1) by simp
  then show ?thesis by (rule versionTail_pre)
qed

lemma select_max:
  assumes noexact: "\<forall>r \<in> set items. eligible ty r \<longrightarrow> Name r \<noteq> e"
    and parses: "\<forall>r \<in> set items. considered e ty r \<longrightarrow> parsedVersion d r \<noteq> None"
    and some: "\<exists>r \<in> set items. considered e ty r"
  shows "\<exists>r \<in> set items. considered e ty r \<and>
           (\<exists>t v. versionText d r = Some t \<and> parsedVersion d r = Some v \<and>
              getMatchingDefinitionRevision e d items ty = Ok (d @ ''-'' @ t) \<and>
              (\<forall>r' \<in> set items. considered e ty r' \<longrightarrow>
                 (\<exists>v'. parsedVersion d r' = Some v' \<and> precedenceLe v' v)))"
proof -
  let ?cands = "filter (considered e ty) items"
  let ?vs = "map (\<lambda>r. the (parsedVersion d r)) ?cands"
  let ?orig = "Map.empty ++ map_of (rev (map (recorded d) ?cands))"
  let ?latest = "last (sortVersions ?vs)"
  have res: "getMatchingDefinitionRevision e d items ty = finish d ?vs ?orig"
    unfolding getMatchingDefinitionRevision_def
    using matchRevisions_all[OF noexact parses, of "[]" Map.empty] by simp
  from some have ne: "?vs \<noteq> []" by (auto simp: filter_empty_conv)
  have latest_in: "?latest \<in> set ?vs" using ne by (rule last_sortVersions(1))
  have latest_max: "\<And>v. v \<in> set ?vs \<Longrightarrow> precedenceLe v ?latest"
    using ne by (rule last_sortVersions(2))
  from latest_in obtain r0 where r0: "r0 \<in> set ?cands" "the (parsedVersion d r0) = ?latest"
    by auto
  then have "String ?latest \<in> fst ` set (map (recorded d) ?cands)"
    by (force simp: recorded_def)
  from map_of_rev_key[OF this, of Map.empty]
  obtain t where tt: "(String ?latest, t) \<in> set (map (recorded d) ?cands)
      \<and> ?orig (String ?latest) = Some t" ..
  have t: "(String ?latest, t) \<in> set (map (recorded d) ?cands)"
      "?orig (String ?latest) = Some t"
    using tt by (rule conjunct1, rule conjunct2)
  from t(1) obtain r1 where r1: "r1 \<in> set ?cands" "recorded d r1 = (String ?latest, t)"
    by auto
  from r1(1) have r1c: "r1 \<in> set items" "considered e ty r1" by auto
  with parses obtain v1 where v1: "parsedVersion d r1 = Some v1" by auto
  then obtain t1 where t1: "versionText d r1 = Some t1"
    by (auto simp: parsedVersion_def split: option.splits)
  from r1(2) v1 t1 have k1: "String v1 = String ?latest" "t = t1"
    by (simp_all add: recorded_def)
  from r0(1) have r0c: "r0 \<in> set items" "considered e ty r0" by auto
  with parses obtain v0 where v0: "parsedVersion d r0 = Some v0" by auto
  with r0(2) have l0: "?latest = v0" by simp
  have nn1: "0 \<le> major v1 \<and> 0 \<le> minor v1 \<and> 0 \<le> patch v1"
    using v1 by (rule parsedVersion_nonneg)
  have nn0: "0 \<le> major v0 \<and> 0 \<le> minor v0 \<and> 0 \<le> patch v0"
    using v0 by (rule parsedVersion_nonneg)
  have same: "major v1 = major v0 \<and> minor v1 = minor v0 \<and> patch v1 = patch v0"
    using k1(1) nn1 nn0 unfolding l0 by (intro String_numbers) auto
  have samepre: "(pre v1 = []) = (pre v0 = [])"
    using k1(1) nn1 nn0 unfolding l0 by (intro String_pre) auto
  have result: "getMatchingDefinitionRevision e d items ty = Ok (d @ ''-'' @ t1)"
    unfolding res finish_def using ne t(2) k1(2) by (simp add: mapIndex_def)
  have max: "\<forall>r' \<in> set items. considered e ty r' \<longrightarrow>
      (\<exists>v'. parsedVersion d r' = Some v' \<and> precedenceLe v' v1)"
  proof (intro ballI impI)
    fix r' assume r': "r' \<in> set items" "considered e ty r'"
    with parses obtain v' where v': "parsedVersion d r' = Some v'" by auto
    from r' have "r' \<in> set ?cands" by simp
    then have "the (parsedVersion d r') \<in> set ?vs" by (intro imageI[where f="\<lambda>r. the (parsedVersion d r)", THEN subst[where P="\<lambda>S. _ \<in> S", OF set_map[symmetric]]])
    then have "precedenceLe v' ?latest" using latest_max v' by simp
    then have "precedenceLe v' v0" by (simp add: l0)
    then have "precedenceLe v' v1" using same samepre by (intro precedenceLe_same[of v1 v0]) auto
    with v' show "\<exists>v'. parsedVersion d r' = Some v' \<and> precedenceLe v' v1" by simp
  qed
  from r1c t1 v1 result max show ?thesis by blast
qed

lemma matchRevisions_malformed:
  assumes "items = before @ r # after"
    and "\<forall>r' \<in> set before. eligible ty r' \<longrightarrow> Name r' \<noteq> e"
    and "\<forall>r' \<in> set before. considered e ty r' \<longrightarrow> parsedVersion d r' \<noteq> None"
    and "considered e ty r" and "Name r \<noteq> e" and "parsedVersion d r = None"
  shows "\<exists>p. matchRevisions e d ty items vs orig = Panicked p"
  using assms(1-3)
proof (induction before arbitrary: items vs orig)
  case Nil
  from assms(4) have ee: "eligible ty r" "extendsToken e r" by (simp_all add: considered_def)
  from assms(6) ee assms(5) show ?case
    unfolding Nil(1)
    by (auto simp: matchRevisions_Cons parsedVersion_def split: option.splits)
next
  case (Cons b before)
  have IH: "\<And>vs orig. \<exists>p. matchRevisions e d ty (before @ r # after) vs orig = Panicked p"
    using Cons.IH[OF refl] Cons.prems by simp
  have nb: "eligible ty b \<longrightarrow> Name b \<noteq> e" using Cons.prems by simp
  have pb: "considered e ty b \<longrightarrow> parsedVersion d b \<noteq> None" using Cons.prems by simp
  show ?case
  proof (cases "eligible ty b \<and> extendsToken e b")
    case False
    with nb show ?thesis
      unfolding Cons.prems(1) by (auto simp: matchRevisions_Cons IH)
  next
    case True
    then have "considered e ty b" by (simp add: considered_def)
    with pb obtain v where v: "parsedVersion d b = Some v" by auto
    then obtain t where t: "versionText d b = Some t" "fst (NewVersion t) = Some v"
      by (auto simp: parsedVersion_def split: option.splits)
    from True nb t show ?thesis
      unfolding Cons.prems(1) by (simp add: matchRevisions_Cons IH)
  qed
qed

lemma filter_eligible:
  "ty \<noteq> [] \<Longrightarrow> filter (eligible ty) items = filter (\<lambda>r. DefinitionType r = ty) items"
  by (rule filter_cong) (auto simp: eligible_def)

lemma select_none:
  assumes "\<forall>r \<in> set items. eligible ty r \<longrightarrow> Name r \<noteq> e"
    and "\<forall>r \<in> set items. \<not> considered e ty r"
  shows "getMatchingDefinitionRevision e d items ty = Ok []"
proof -
  have p: "\<forall>r \<in> set items. considered e ty r \<longrightarrow> parsedVersion d r \<noteq> None"
    using assms(2) by simp
  have f: "filter (considered e ty) items = []"
    using assms(2) by (simp add: filter_empty_conv)
  show ?thesis
    unfolding getMatchingDefinitionRevision_def matchRevisions_all[OF assms(1) p] f
    by (simp add: finish_def)
qed

lemma select_exact:
  assumes "\<exists>r \<in> set items. eligible ty r \<and> Name r = e"
    and "\<forall>r \<in> set items. considered e ty r \<longrightarrow> parsedVersion d r \<noteq> None"
  shows "getMatchingDefinitionRevision e d items ty = Ok e"
proof -
  from assms(1) obtain r where r: "r \<in> set items" "eligible ty r" "Name r = e" by blast
  from r(1) obtain before after where s: "items = before @ r # after"
    by (auto dest: split_list)
  have "\<forall>r' \<in> set before. considered e ty r' \<longrightarrow> parsedVersion d r' \<noteq> None"
    using assms(2) s by simp
  with s r show ?thesis
    unfolding getMatchingDefinitionRevision_def by (intro matchRevisions_exact) auto
qed

lemma select_permuted:
  assumes perm: "mset permuted = mset items"
    and parses: "\<forall>r \<in> set items. considered e ty r \<longrightarrow> parsedVersion d r \<noteq> None"
    and dist: "distinct (map (versionNumbers d) (filter (considered e ty) items))"
  shows "getMatchingDefinitionRevision e d permuted ty = getMatchingDefinitionRevision e d items ty"
proof -
  have sets: "set permuted = set items" using perm by (rule mset_eq_setD)
  have parses': "\<forall>r \<in> set permuted. considered e ty r \<longrightarrow> parsedVersion d r \<noteq> None"
    using parses sets by simp
  have inj: "inj_on (versionNumbers d) (set (filter (considered e ty) items))"
    using dist by (simp add: distinct_map)
  show ?thesis
  proof (cases "\<exists>r \<in> set items. eligible ty r \<and> Name r = e")
    case True
    then have "\<exists>r \<in> set permuted. eligible ty r \<and> Name r = e" using sets by simp
    then have "getMatchingDefinitionRevision e d permuted ty = Ok e"
      using parses' by (rule select_exact)
    moreover have "getMatchingDefinitionRevision e d items ty = Ok e"
      using True parses by (rule select_exact)
    ultimately show ?thesis by simp
  next
    case False
    then have ne: "\<forall>r \<in> set items. eligible ty r \<longrightarrow> Name r \<noteq> e" by blast
    then have ne': "\<forall>r \<in> set permuted. eligible ty r \<longrightarrow> Name r \<noteq> e" using sets by simp
    show ?thesis
    proof (cases "\<exists>r \<in> set items. considered e ty r")
      case False
      then have n: "\<forall>r \<in> set items. \<not> considered e ty r" by blast
      then have n': "\<forall>r \<in> set permuted. \<not> considered e ty r" using sets by simp
      show ?thesis
        unfolding select_none[OF ne n] select_none[OF ne' n'] ..
    next
      case True
      then have some': "\<exists>r \<in> set permuted. considered e ty r" using sets by simp
      from select_max[OF ne parses True]
      obtain r1 t1 v1 where r1: "r1 \<in> set items" "considered e ty r1"
          "versionText d r1 = Some t1" "parsedVersion d r1 = Some v1"
          "getMatchingDefinitionRevision e d items ty = Ok (d @ ''-'' @ t1)"
          "\<forall>r' \<in> set items. considered e ty r' \<longrightarrow>
             (\<exists>v'. parsedVersion d r' = Some v' \<and> precedenceLe v' v1)"
        by blast
      from select_max[OF ne' parses' some']
      obtain r2 t2 v2 where r2: "r2 \<in> set permuted" "considered e ty r2"
          "versionText d r2 = Some t2" "parsedVersion d r2 = Some v2"
          "getMatchingDefinitionRevision e d permuted ty = Ok (d @ ''-'' @ t2)"
          "\<forall>r' \<in> set permuted. considered e ty r' \<longrightarrow>
             (\<exists>v'. parsedVersion d r' = Some v' \<and> precedenceLe v' v2)"
        by blast
      have "precedenceLe v2 v1" using r1(6) r2(1,2,4) sets by auto
      then have "numbersLe v2 v1" by (rule precedenceLe_numbersLe)
      moreover have "precedenceLe v1 v2" using r2(6) r1(1,2,4) sets by auto
      then have "numbersLe v1 v2" by (rule precedenceLe_numbersLe)
      ultimately have "major v1 = major v2 \<and> minor v1 = minor v2 \<and> patch v1 = patch v2"
        by (intro numbersLe_antisym)
      then have "versionNumbers d r1 = versionNumbers d r2"
        using r1(4) r2(4) by (simp add: versionNumbers_def)
      moreover have "r1 \<in> set (filter (considered e ty) items)" using r1 by simp
      moreover have "r2 \<in> set (filter (considered e ty) items)" using r2 sets by simp
      ultimately have "r1 = r2" using inj by (auto dest: inj_onD)
      with r1(3) r2(3) have "t1 = t2" by simp
      with r1(5) r2(5) show ?thesis by simp
    qed
  qed
qed

section \<open>Properties of the selection\<close>

text \<open>
  Claim C1. A revision of the requested kind whose name extends the token by a dot and
  whose suffix is not a semantic version should make the selection return an error.
  The code calls \<^verbatim>\<open>v.String()\<close> on the nil pointer that \<^verbatim>\<open>semver.NewVersion\<close>
  returned, one line before it looks at \<^verbatim>\<open>err\<close>: on the list that holds the single
  revision \<^verbatim>\<open>app-v1.x\<close>, with token \<^verbatim>\<open>app-v1\<close> and base name \<^verbatim>\<open>app\<close>, the call
  panics; and the selection returns an error on no input, since the only
  \<^verbatim>\<open>return "", err\<close> of the function stands behind that call.
\<close>

theorem malformed_revision_panics:
  "getMatchingDefinitionRevision ''app-v1'' ''app''
     [\<lparr>Name = ''app-v1.x'', DefinitionType = ''Component''\<rparr>] ''Component''
   = Panicked NilPointerDereference
   \<and> (\<forall>exactRevisionName definitionName revisionList definitionType err.
        getMatchingDefinitionRevision exactRevisionName definitionName revisionList
          definitionType \<noteq> Failed err)"
proof
  show "getMatchingDefinitionRevision ''app-v1'' ''app''
     [\<lparr>Name = ''app-v1.x'', DefinitionType = ''Component''\<rparr>] ''Component''
   = Panicked NilPointerDereference"
    by code_simp
  show "\<forall>exactRevisionName definitionName revisionList definitionType err.
        getMatchingDefinitionRevision exactRevisionName definitionName revisionList
          definitionType \<noteq> Failed err"
    unfolding getMatchingDefinitionRevision_def
    by (intro allI) (rule matchRevisions_not_Failed)
qed

lemma selection_never_fails:
  "getMatchingDefinitionRevision exactRevisionName definitionName revisionList definitionType
   \<noteq> Failed err"
  unfolding getMatchingDefinitionRevision_def by (rule matchRevisions_not_Failed)

text \<open>
  The same on every list: when the loop reaches a considered revision whose suffix is
  missing or does not parse (no revision of the kind before it is named as the token,
  and the considered ones before it parse), the call panics.
\<close>

lemma selection_panics_on_malformed:
  assumes "revisionList = before @ revision # after"
    and "\<forall>earlier \<in> set before.
           eligible definitionType earlier \<longrightarrow> Name earlier \<noteq> exactRevisionName"
    and "\<forall>earlier \<in> set before.
           considered exactRevisionName definitionType earlier \<longrightarrow>
           parsedVersion definitionName earlier \<noteq> None"
    and "considered exactRevisionName definitionType revision"
    and "Name revision \<noteq> exactRevisionName"
    and "parsedVersion definitionName revision = None"
  shows "\<exists>p. getMatchingDefinitionRevision exactRevisionName definitionName revisionList
           definitionType = Panicked p"
  unfolding getMatchingDefinitionRevision_def using assms by (rule matchRevisions_malformed)

text \<open>
  Claim C2 as stated: the result is the same on every permutation of the list. It is
  not: \<^verbatim>\<open>app-v1.2\<close> and \<^verbatim>\<open>app-v1.2.0\<close> parse to the same version \<^verbatim>\<open>1.2.0\<close>, the
  table \<^verbatim>\<open>orignalVersions\<close> keeps the suffix stored last under that key, and the
  returned name follows the order of the list.
\<close>

theorem selection_order_counterexample:
  "mset [\<lparr>Name = ''app-v1.2.0'', DefinitionType = ''Component''\<rparr>,
         \<lparr>Name = ''app-v1.2'', DefinitionType = ''Component''\<rparr>]
   = mset [\<lparr>Name = ''app-v1.2'', DefinitionType = ''Component''\<rparr>,
           \<lparr>Name = ''app-v1.2.0'', DefinitionType = ''Component''\<rparr>]
   \<and> getMatchingDefinitionRevision ''app-v1'' ''app''
       [\<lparr>Name = ''app-v1.2'', DefinitionType = ''Component''\<rparr>,
        \<lparr>Name = ''app-v1.2.0'', DefinitionType = ''Component''\<rparr>] ''Component''
     = Ok ''app-v1.2.0''
   \<and> getMatchingDefinitionRevision ''app-v1'' ''app''
       [\<lparr>Name = ''app-v1.2.0'', DefinitionType = ''Component''\<rparr>,
        \<lparr>Name = ''app-v1.2'', DefinitionType = ''Component''\<rparr>] ''Component''
     = Ok ''app-v1.2''"
proof (intro conjI)
  show "mset [\<lparr>Name = ''app-v1.2.0'', DefinitionType = ''Component''\<rparr>,
         \<lparr>Name = ''app-v1.2'', DefinitionType = ''Component''\<rparr>]
   = mset [\<lparr>Name = ''app-v1.2'', DefinitionType = ''Component''\<rparr>,
           \<lparr>Name = ''app-v1.2.0'', DefinitionType = ''Component''\<rparr>]"
    by simp
  show "getMatchingDefinitionRevision ''app-v1'' ''app''
       [\<lparr>Name = ''app-v1.2'', DefinitionType = ''Component''\<rparr>,
        \<lparr>Name = ''app-v1.2.0'', DefinitionType = ''Component''\<rparr>] ''Component''
     = Ok ''app-v1.2.0''"
    by code_simp
  show "getMatchingDefinitionRevision ''app-v1'' ''app''
       [\<lparr>Name = ''app-v1.2.0'', DefinitionType = ''Component''\<rparr>,
        \<lparr>Name = ''app-v1.2'', DefinitionType = ''Component''\<rparr>] ''Component''
     = Ok ''app-v1.2''"
    by code_simp
qed

text \<open>
  Claim C2 as amended: when every considered revision (requested kind, name extending
  the token by a dot) carries a suffix that parses, and no two of them carry the same
  major, minor and patch numbers, the selection returns the same result on every
  permutation of the list.
\<close>

theorem selection_order_independent:
  assumes "mset permuted = mset revisionList"
    and "\<forall>revision \<in> set revisionList.
           considered exactRevisionName definitionType revision \<longrightarrow>
           parsedVersion definitionName revision \<noteq> None"
    and "distinct (map (versionNumbers definitionName)
           (filter (considered exactRevisionName definitionType) revisionList))"
  shows "getMatchingDefinitionRevision exactRevisionName definitionName permuted definitionType
         = getMatchingDefinitionRevision exactRevisionName definitionName revisionList
             definitionType"
  using assms by (rule select_permuted)

theorem selection_order_independent_witness:
  "mset [\<lparr>Name = ''app-v1.10.0'', DefinitionType = ''Component''\<rparr>,
      \<lparr>Name = ''app-v1.0.0'', DefinitionType = ''Component''\<rparr>,
      \<lparr>Name = ''app-v1.2.0'', DefinitionType = ''Component''\<rparr>]
   = mset [\<lparr>Name = ''app-v1.0.0'', DefinitionType = ''Component''\<rparr>,
      \<lparr>Name = ''app-v1.2.0'', DefinitionType = ''Component''\<rparr>,
      \<lparr>Name = ''app-v1.10.0'', DefinitionType = ''Component''\<rparr>]
   \<and> getMatchingDefinitionRevision ''app-v1'' ''app''
       [\<lparr>Name = ''app-v1.10.0'', DefinitionType = ''Component''\<rparr>,
      \<lparr>Name = ''app-v1.0.0'', DefinitionType = ''Component''\<rparr>,
      \<lparr>Name = ''app-v1.2.0'', DefinitionType = ''Component''\<rparr>] ''Component''
     = getMatchingDefinitionRevision ''app-v1'' ''app''
         [\<lparr>Name = ''app-v1.0.0'', DefinitionType = ''Component''\<rparr>,
      \<lparr>Name = ''app-v1.2.0'', DefinitionType = ''Component''\<rparr>,
      \<lparr>Name = ''app-v1.10.0'', DefinitionType = ''Component''\<rparr>] ''Component''
   \<and> getMatchingDefinitionRevision ''app-v1'' ''app''
       [\<lparr>Name = ''app-v1.0.0'', DefinitionType = ''Component''\<rparr>,
      \<lparr>Name = ''app-v1.2.0'', DefinitionType = ''Component''\<rparr>,
      \<lparr>Name = ''app-v1.10.0'', DefinitionType = ''Component''\<rparr>] ''Component''
     = Ok ''app-v1.10.0''"
proof -
  have a: "mset [\<lparr>Name = ''app-v1.10.0'', DefinitionType = ''Component''\<rparr>,
      \<lparr>Name = ''app-v1.0.0'', DefinitionType = ''Component''\<rparr>,
      \<lparr>Name = ''app-v1.2.0'', DefinitionType = ''Component''\<rparr>]
   = mset [\<lparr>Name = ''app-v1.0.0'', DefinitionType = ''Component''\<rparr>,
      \<lparr>Name = ''app-v1.2.0'', DefinitionType = ''Component''\<rparr>,
      \<lparr>Name = ''app-v1.10.0'', DefinitionType = ''Component''\<rparr>]"
    by simp
  have b: "\<forall>revision \<in> set [\<lparr>Name = ''app-v1.0.0'', DefinitionType = ''Component''\<rparr>,
      \<lparr>Name = ''app-v1.2.0'', DefinitionType = ''Component''\<rparr>,
      \<lparr>Name = ''app-v1.10.0'', DefinitionType = ''Component''\<rparr>].
      considered ''app-v1'' ''Component'' revision \<longrightarrow> parsedVersion ''app'' revision \<noteq> None"
    by code_simp
  have c: "distinct (map (versionNumbers ''app'') (filter (considered ''app-v1'' ''Component'')
      [\<lparr>Name = ''app-v1.0.0'', DefinitionType = ''Component''\<rparr>,
      \<lparr>Name = ''app-v1.2.0'', DefinitionType = ''Component''\<rparr>,
      \<lparr>Name = ''app-v1.10.0'', DefinitionType = ''Component''\<rparr>]))"
    by code_simp
  have d: "getMatchingDefinitionRevision ''app-v1'' ''app''
       [\<lparr>Name = ''app-v1.0.0'', DefinitionType = ''Component''\<rparr>,
      \<lparr>Name = ''app-v1.2.0'', DefinitionType = ''Component''\<rparr>,
      \<lparr>Name = ''app-v1.10.0'', DefinitionType = ''Component''\<rparr>] ''Component''
     = Ok ''app-v1.10.0''"
    by code_simp
  from a selection_order_independent[OF a b c] d show ?thesis by (intro conjI)
qed

text \<open>
  Claim C7. When the list holds a revision of the requested kind whose name is the
  token itself, and the revisions of that kind that extend the token by a dot carry
  versions that parse, the selection returns the token, whatever versions those carry.
\<close>

theorem exact_name_wins:
  assumes "\<exists>revision \<in> set revisionList.
             eligible definitionType revision \<and> Name revision = exactRevisionName"
    and "\<forall>revision \<in> set revisionList.
           considered exactRevisionName definitionType revision \<longrightarrow>
           parsedVersion definitionName revision \<noteq> None"
  shows "getMatchingDefinitionRevision exactRevisionName definitionName revisionList definitionType
         = Ok exactRevisionName"
  using assms by (rule select_exact)

theorem exact_name_wins_witness:
  "(\<exists>revision \<in> set [\<lparr>Name = ''app-v1.10.0'', DefinitionType = ''Component''\<rparr>,
        \<lparr>Name = ''app-v1'', DefinitionType = ''Component''\<rparr>,
        \<lparr>Name = ''app-v1.2.0'', DefinitionType = ''Component''\<rparr>].
      eligible ''Component'' revision \<and> Name revision = ''app-v1'') \<and>
   getMatchingDefinitionRevision ''app-v1'' ''app''
     [\<lparr>Name = ''app-v1.10.0'', DefinitionType = ''Component''\<rparr>,
      \<lparr>Name = ''app-v1'', DefinitionType = ''Component''\<rparr>,
      \<lparr>Name = ''app-v1.2.0'', DefinitionType = ''Component''\<rparr>] ''Component''
   = Ok ''app-v1''"
proof -
  let ?items = "[\<lparr>Name = ''app-v1.10.0'', DefinitionType = ''Component''\<rparr>,
      \<lparr>Name = ''app-v1'', DefinitionType = ''Component''\<rparr>,
      \<lparr>Name = ''app-v1.2.0'', DefinitionType = ''Component''\<rparr>]"
  have a: "\<exists>revision \<in> set ?items.
      eligible ''Component'' revision \<and> Name revision = ''app-v1''"
    by code_simp
  have b: "\<forall>revision \<in> set ?items.
      considered ''app-v1'' ''Component'' revision \<longrightarrow> parsedVersion ''app'' revision \<noteq> None"
    by code_simp
  from a exact_name_wins[OF a b] show ?thesis by (rule conjI)
qed

text \<open>
  Claim C8. When no revision of the requested kind is named as the token and the
  considered revisions all carry suffixes that parse, the selection returns the base
  name, a dash and the suffix of a considered revision that no considered revision
  exceeds: its major, minor and patch numbers are, compared as numbers, at least those
  of every other, and it carries a pre-release text only if every considered revision
  with the same numbers carries one. (That is the name of the revision itself when
  the revision is named by the base name, a dash and its suffix.) For the revisions \<^verbatim>\<open>app-v1.0.0\<close>, \<^verbatim>\<open>app-v1.2.0\<close>, \<^verbatim>\<open>app-v1.10.0\<close> and the token
  \<^verbatim>\<open>app-v1\<close> it returns \<^verbatim>\<open>app-v1.10.0\<close>.
\<close>

theorem newest_version_selected:
  assumes "\<forall>revision \<in> set revisionList.
             eligible definitionType revision \<longrightarrow> Name revision \<noteq> exactRevisionName"
    and "\<forall>revision \<in> set revisionList.
           considered exactRevisionName definitionType revision \<longrightarrow>
           parsedVersion definitionName revision \<noteq> None"
    and "\<exists>revision \<in> set revisionList. considered exactRevisionName definitionType revision"
  shows "(\<exists>revision \<in> set revisionList.
            considered exactRevisionName definitionType revision \<and>
            (\<exists>version v.
               versionText definitionName revision = Some version \<and>
               parsedVersion definitionName revision = Some v \<and>
               getMatchingDefinitionRevision exactRevisionName definitionName revisionList
                 definitionType = Ok (definitionName @ ''-'' @ version) \<and>
               (\<forall>other \<in> set revisionList.
                  considered exactRevisionName definitionType other \<longrightarrow>
                  (\<exists>v'. parsedVersion definitionName other = Some v' \<and> precedenceLe v' v))))
         \<and> getMatchingDefinitionRevision ''app-v1'' ''app''
             [\<lparr>Name = ''app-v1.0.0'', DefinitionType = ''Component''\<rparr>,
      \<lparr>Name = ''app-v1.2.0'', DefinitionType = ''Component''\<rparr>,
      \<lparr>Name = ''app-v1.10.0'', DefinitionType = ''Component''\<rparr>] ''Component''
           = Ok ''app-v1.10.0''"
proof
  show "\<exists>revision \<in> set revisionList.
            considered exactRevisionName definitionType revision \<and>
            (\<exists>version v.
               versionText definitionName revision = Some version \<and>
               parsedVersion definitionName revision = Some v \<and>
               getMatchingDefinitionRevision exactRevisionName definitionName revisionList
                 definitionType = Ok (definitionName @ ''-'' @ version) \<and>
               (\<forall>other \<in> set revisionList.
                  considered exactRevisionName definitionType other \<longrightarrow>
                  (\<exists>v'. parsedVersion definitionName other = Some v' \<and> precedenceLe v' v)))"
    using assms by (rule select_max)
  show "getMatchingDefinitionRevision ''app-v1'' ''app''
             [\<lparr>Name = ''app-v1.0.0'', DefinitionType = ''Component''\<rparr>,
      \<lparr>Name = ''app-v1.2.0'', DefinitionType = ''Component''\<rparr>,
      \<lparr>Name = ''app-v1.10.0'', DefinitionType = ''Component''\<rparr>] ''Component''
           = Ok ''app-v1.10.0''"
    by code_simp
qed

theorem newest_version_selected_witness:
  "(\<exists>revision \<in> set [\<lparr>Name = ''web-v2.9.1'', DefinitionType = ''Trait''\<rparr>,
      \<lparr>Name = ''web-v2.10.0-rc1'', DefinitionType = ''Trait''\<rparr>,
      \<lparr>Name = ''web-v2.10.0'', DefinitionType = ''Trait''\<rparr>,
      \<lparr>Name = ''web-v3.0.0'', DefinitionType = ''Trait''\<rparr>].
      considered ''web-v2'' ''Trait'' revision) \<and>
   (\<exists>revision \<in> set [\<lparr>Name = ''web-v2.9.1'', DefinitionType = ''Trait''\<rparr>,
      \<lparr>Name = ''web-v2.10.0-rc1'', DefinitionType = ''Trait''\<rparr>,
      \<lparr>Name = ''web-v2.10.0'', DefinitionType = ''Trait''\<rparr>,
      \<lparr>Name = ''web-v3.0.0'', DefinitionType = ''Trait''\<rparr>].
      considered ''web-v2'' ''Trait'' revision \<and>
      (\<exists>version v.
        versionText ''web'' revision = Some version \<and>
        parsedVersion ''web'' revision = Some v \<and>
        getMatchingDefinitionRevision ''web-v2'' ''web''
          [\<lparr>Name = ''web-v2.9.1'', DefinitionType = ''Trait''\<rparr>,
      \<lparr>Name = ''web-v2.10.0-rc1'', DefinitionType = ''Trait''\<rparr>,
      \<lparr>Name = ''web-v2.10.0'', DefinitionType = ''Trait''\<rparr>,
      \<lparr>Name = ''web-v3.0.0'', DefinitionType = ''Trait''\<rparr>] ''Trait''
        = Ok (''web'' @ ''-'' @ version))) \<and>
   getMatchingDefinitionRevision ''web-v2'' ''web''
     [\<lparr>Name = ''web-v2.9.1'', DefinitionType = ''Trait''\<rparr>,
      \<lparr>Name = ''web-v2.10.0-rc1'', DefinitionType = ''Trait''\<rparr>,
      \<lparr>Name = ''web-v2.10.0'', DefinitionType = ''Trait''\<rparr>,
      \<lparr>Name = ''web-v3.0.0'', DefinitionType = ''Trait''\<rparr>] ''Trait''
   = Ok ''web-v2.10.0'' \<and>
   getMatchingDefinitionRevision ''app-v1'' ''app''
     [\<lparr>Name = ''app-v1.0.0'', DefinitionType = ''Component''\<rparr>,
      \<lparr>Name = ''app-v1.2.0'', DefinitionType = ''Component''\<rparr>,
      \<lparr>Name = ''app-v1.10.0'', DefinitionType = ''Component''\<rparr>] ''Component''
   = Ok ''app-v1.10.0''"
proof -
  have a: "\<forall>revision \<in> set [\<lparr>Name = ''web-v2.9.1'', DefinitionType = ''Trait''\<rparr>,
      \<lparr>Name = ''web-v2.10.0-rc1'', DefinitionType = ''Trait''\<rparr>,
      \<lparr>Name = ''web-v2.10.0'', DefinitionType = ''Trait''\<rparr>,
      \<lparr>Name = ''web-v3.0.0'', DefinitionType = ''Trait''\<rparr>].
      eligible ''Trait'' revision \<longrightarrow> Name revision \<noteq> ''web-v2''"
    by code_simp
  have b: "\<forall>revision \<in> set [\<lparr>Name = ''web-v2.9.1'', DefinitionType = ''Trait''\<rparr>,
      \<lparr>Name = ''web-v2.10.0-rc1'', DefinitionType = ''Trait''\<rparr>,
      \<lparr>Name = ''web-v2.10.0'', DefinitionType = ''Trait''\<rparr>,
      \<lparr>Name = ''web-v3.0.0'', DefinitionType = ''Trait''\<rparr>].
      considered ''web-v2'' ''Trait'' revision \<longrightarrow> parsedVersion ''web'' revision \<noteq> None"
    by code_simp
  have c: "\<exists>revision \<in> set [\<lparr>Name = ''web-v2.9.1'', DefinitionType = ''Trait''\<rparr>,
      \<lparr>Name = ''web-v2.10.0-rc1'', DefinitionType = ''Trait''\<rparr>,
      \<lparr>Name = ''web-v2.10.0'', DefinitionType = ''Trait''\<rparr>,
      \<lparr>Name = ''web-v3.0.0'', DefinitionType = ''Trait''\<rparr>].
      considered ''web-v2'' ''Trait'' revision"
    by code_simp
  note t = newest_version_selected[OF a b c]
  from t have d: "\<exists>revision \<in> set [\<lparr>Name = ''web-v2.9.1'', DefinitionType = ''Trait''\<rparr>,
      \<lparr>Name = ''web-v2.10.0-rc1'', DefinitionType = ''Trait''\<rparr>,
      \<lparr>Name = ''web-v2.10.0'', DefinitionType = ''Trait''\<rparr>,
      \<lparr>Name = ''web-v3.0.0'', DefinitionType = ''Trait''\<rparr>].
      considered ''web-v2'' ''Trait'' revision \<and>
      (\<exists>version v.
        versionText ''web'' revision = Some version \<and>
        parsedVersion ''web'' revision = Some v \<and>
        getMatchingDefinitionRevision ''web-v2'' ''web''
          [\<lparr>Name = ''web-v2.9.1'', DefinitionType = ''Trait''\<rparr>,
      \<lparr>Name = ''web-v2.10.0-rc1'', DefinitionType = ''Trait''\<rparr>,
      \<lparr>Name = ''web-v2.10.0'', DefinitionType = ''Trait''\<rparr>,
      \<lparr>Name = ''web-v3.0.0'', DefinitionType = ''Trait''\<rparr>] ''Trait''
        = Ok (''web'' @ ''-'' @ version))"
    by blast
  have e: "getMatchingDefinitionRevision ''web-v2'' ''web''
     [\<lparr>Name = ''web-v2.9.1'', DefinitionType = ''Trait''\<rparr>,
      \<lparr>Name = ''web-v2.10.0-rc1'', DefinitionType = ''Trait''\<rparr>,
      \<lparr>Name = ''web-v2.10.0'', DefinitionType = ''Trait''\<rparr>,
      \<lparr>Name = ''web-v3.0.0'', DefinitionType = ''Trait''\<rparr>] ''Trait''
   = Ok ''web-v2.10.0''"
    by code_simp
  from t have f: "getMatchingDefinitionRevision ''app-v1'' ''app''
     [\<lparr>Name = ''app-v1.0.0'', DefinitionType = ''Component''\<rparr>,
      \<lparr>Name = ''app-v1.2.0'', DefinitionType = ''Component''\<rparr>,
      \<lparr>Name = ''app-v1.10.0'', DefinitionType = ''Component''\<rparr>] ''Component''
   = Ok ''app-v1.10.0''"
    by (rule conjunct2)
  show ?thesis by (rule conjI[OF c conjI[OF d conjI[OF e f]]])
qed

text \<open>
  Claim C10. For a requested kind (a \<^verbatim>\<open>DefinitionType\<close> that is not empty) the
  selection on a list is the selection on the list without the revisions of other
  kinds: they are neither returned nor parsed. The code switches the test off for the
  empty \<^verbatim>\<open>DefinitionType\<close>.
\<close>

theorem other_kinds_skipped:
  assumes "definitionType \<noteq> []"
  shows "getMatchingDefinitionRevision exactRevisionName definitionName revisionList definitionType =
         getMatchingDefinitionRevision exactRevisionName definitionName
           (filter (\<lambda>revision. DefinitionType revision = definitionType) revisionList)
           definitionType"
  unfolding getMatchingDefinitionRevision_def
  using matchRevisions_filter[of exactRevisionName definitionName definitionType revisionList]
    filter_eligible[OF assms, of revisionList]
  by simp

theorem other_kinds_skipped_witness:
  "''Component'' \<noteq> [] \<and>
   getMatchingDefinitionRevision ''app-v1'' ''app''
     [\<lparr>Name = ''app-v1.x'', DefinitionType = ''Trait''\<rparr>,
      \<lparr>Name = ''app-v1'', DefinitionType = ''Trait''\<rparr>,
      \<lparr>Name = ''app-v1.2.0'', DefinitionType = ''Component''\<rparr>] ''Component''
   = getMatchingDefinitionRevision ''app-v1'' ''app''
       (filter (\<lambda>revision. DefinitionType revision = ''Component'')
     [\<lparr>Name = ''app-v1.x'', DefinitionType = ''Trait''\<rparr>,
      \<lparr>Name = ''app-v1'', DefinitionType = ''Trait''\<rparr>,
      \<lparr>Name = ''app-v1.2.0'', DefinitionType = ''Component''\<rparr>]) ''Component''
   \<and> getMatchingDefinitionRevision ''app-v1'' ''app''
     [\<lparr>Name = ''app-v1.x'', DefinitionType = ''Trait''\<rparr>,
      \<lparr>Name = ''app-v1'', DefinitionType = ''Trait''\<rparr>,
      \<lparr>Name = ''app-v1.2.0'', DefinitionType = ''Component''\<rparr>] ''Component''
   = Ok ''app-v1.2.0''"
proof -
  have k: "''Component'' \<noteq> []" by simp
  have v: "getMatchingDefinitionRevision ''app-v1'' ''app''
     [\<lparr>Name = ''app-v1.x'', DefinitionType = ''Trait''\<rparr>,
      \<lparr>Name = ''app-v1'', DefinitionType = ''Trait''\<rparr>,
      \<lparr>Name = ''app-v1.2.0'', DefinitionType = ''Component''\<rparr>] ''Component''
   = Ok ''app-v1.2.0''" by code_simp
  from k other_kinds_skipped[OF k] v show ?thesis by blast
qed

section \<open>Properties of the conversion of revision names\<close>

lemma splitFrom_nonempty: "splitFrom sep cur s \<noteq> []"
  by (induction sep cur s rule: splitFrom.induct) auto

lemma splitFrom_none:
  "sep \<noteq> [] \<Longrightarrow> \<not> Contains s sep \<Longrightarrow> splitFrom sep cur s = [rev cur @ s]"
  by (induction s arbitrary: cur) auto

lemma HasPrefix_at_v:
  "\<not> HasPrefix (c # cs) ''@v'' \<Longrightarrow> \<not> HasPrefix (c # cs @ ''@v'' @ rest) ''@v''"
  by (cases cs) (auto simp: HasPrefix_def)

lemma splitFrom_first:
  "\<not> Contains name ''@v'' \<Longrightarrow>
   splitFrom ''@v'' cur (name @ ''@v'' @ rest) = (rev cur @ name) # splitFrom ''@v'' [] rest"
proof (induction name arbitrary: cur)
  case Nil
  show ?case by (simp add: HasPrefix_def)
next
  case (Cons c cs)
  then have np: "\<not> HasPrefix (c # cs) ''@v''" and nc: "\<not> Contains cs ''@v''" by simp_all
  have "\<not> HasPrefix (c # cs @ ''@v'' @ rest) ''@v''" using np by (rule HasPrefix_at_v)
  then have "splitFrom ''@v'' cur ((c # cs) @ ''@v'' @ rest)
      = splitFrom ''@v'' (c # cur) (cs @ ''@v'' @ rest)" by simp
  also have "\<dots> = (rev (c # cur) @ cs) # splitFrom ''@v'' [] rest"
    using nc by (rule Cons.IH)
  finally show ?case by simp
qed

lemma Convert_direct:
  assumes "\<not> Contains definitionName ''@v'' \<or> HasPrefix definitionName ''@v''"
  shows "ConvertDefinitionRevName P definitionName =
     (if IsQualifiedName P definitionName = [] then Ok definitionName
      else Failed (ErrInvalidRevisionName definitionName (IsQualifiedName P definitionName)))"
proof (cases "HasPrefix definitionName ''@v''")
  case True
  then obtain rest where r: "definitionName = ''@v'' @ rest"
    by (metis HasPrefix_def append_take_drop_id)
  have "Split definitionName ''@v'' = [] # splitFrom ''@v'' [] rest"
    unfolding r by (simp add: Split_def HasPrefix_def)
  then show ?thesis
    by (simp add: ConvertDefinitionRevName_def Let_def)
next
  case False
  with assms have "\<not> Contains definitionName ''@v''" by simp
  then have "Split definitionName ''@v'' = [definitionName]"
    by (simp add: Split_def splitFrom_none)
  then show ?thesis
    by (simp add: ConvertDefinitionRevName_def Let_def)
qed

lemma Convert_versioned:
  assumes "name \<noteq> []" and "\<not> Contains name ''@v''"
  shows "ConvertDefinitionRevName P (name @ ''@v'' @ version) =
     (if IsQualifiedName P (name @ ''-v'' @ version) = [] then Ok (name @ ''-v'' @ version)
      else Failed (ErrInvalidRevisionName name (IsQualifiedName P (name @ ''-v'' @ version))))"
proof -
  have s: "Split (name @ ''@v'' @ version) ''@v'' = name # splitFrom ''@v'' [] version"
    using splitFrom_first[OF assms(2), of "[]" version] by (simp add: Split_def)
  have n: "splitFrom ''@v'' [] version \<noteq> []" by (rule splitFrom_nonempty)
  have t: "TrimPrefix (name @ ''@v'' @ version) (name @ ''@v'') = version"
    by (simp add: TrimPrefix_def HasPrefix_def)
  show ?thesis
    unfolding ConvertDefinitionRevName_def s using assms(1) n t
    by (simp add: Let_def)
qed

lemma Convert_Ok_nonempty:
  assumes "ConvertDefinitionRevName P s = Ok t" and "s \<noteq> []"
  shows "t \<noteq> []"
proof (cases "Split s ''@v''")
  case Nil
  with assms show ?thesis by (simp add: ConvertDefinitionRevName_def)
next
  case (Cons defName rest)
  show ?thesis
  proof (cases "length (defName # rest) = 1 \<or> length defName = 0")
    case True
    with assms Cons have "t = s"
      by (simp add: ConvertDefinitionRevName_def Let_def split: if_splits)
    with assms show ?thesis by simp
  next
    case False
    with assms Cons have "t = defName @ ''-v'' @ TrimPrefix s (defName @ ''@v'')"
      by (simp add: ConvertDefinitionRevName_def Let_def split: if_splits)
    then show ?thesis by simp
  qed
qed


text \<open>
  Claim C9. For a name that is not empty and holds no \<^verbatim>\<open>@v\<close>,
  \<^verbatim>\<open>ConvertDefinitionRevName\<close> maps \<^verbatim>\<open>name@vX\<close> to \<^verbatim>\<open>name-vX\<close> when the validator
  accepts that name, and fails with the validator's messages otherwise. An input with
  no \<^verbatim>\<open>@v\<close>, or with nothing before its first \<^verbatim>\<open>@v\<close>, is validated as it is and
  returned unchanged when the validator accepts it: nothing but the validator makes the
  second case fail.
\<close>

theorem ConvertDefinitionRevName_cases:
  "(name \<noteq> [] \<and> \<not> Contains name ''@v'' \<longrightarrow>
      ConvertDefinitionRevName P (name @ ''@v'' @ version) =
        (if IsQualifiedName P (name @ ''-v'' @ version) = [] then Ok (name @ ''-v'' @ version)
         else Failed (ErrInvalidRevisionName name
                (IsQualifiedName P (name @ ''-v'' @ version)))))
   \<and> (\<not> Contains definitionName ''@v'' \<or> HasPrefix definitionName ''@v'' \<longrightarrow>
      ConvertDefinitionRevName P definitionName =
        (if IsQualifiedName P definitionName = [] then Ok definitionName
         else Failed (ErrInvalidRevisionName definitionName
                (IsQualifiedName P definitionName))))"
  using Convert_versioned[of name P version] Convert_direct[of definitionName P] by blast

theorem ConvertDefinitionRevName_cases_witness:
  "(''worker'' \<noteq> [] \<and> \<not> Contains ''worker'' ''@v'') \<and>
   HasPrefix ''@v1.0'' ''@v'' \<and>
   ConvertDefinitionRevName examplePkgs ''worker@v1.3.1'' = Ok ''worker-v1.3.1'' \<and>
   ConvertDefinitionRevName examplePkgs ''@v1.0'' =
     Failed (ErrInvalidRevisionName ''@v1.0'' (IsQualifiedName examplePkgs ''@v1.0'')) \<and>
   ConvertDefinitionRevName examplePkgs ''worker'' = Ok ''worker''"
proof -
  have a: "''worker'' \<noteq> [] \<and> \<not> Contains ''worker'' ''@v''" by code_simp
  have b: "HasPrefix ''@v1.0'' ''@v''" by code_simp
  have c: "IsQualifiedName examplePkgs (''worker'' @ ''-v'' @ ''1.3.1'') = []" by code_simp
  have d: "IsQualifiedName examplePkgs ''@v1.0'' \<noteq> []" by code_simp
  have c': "IsQualifiedName examplePkgs ''worker'' = []" by code_simp
  note t = ConvertDefinitionRevName_cases[of "''worker''" examplePkgs "''1.3.1''" "''@v1.0''"]
  note t' = ConvertDefinitionRevName_cases[of "''worker''" examplePkgs "''1.3.1''" "''worker''"]
  from t a have "ConvertDefinitionRevName examplePkgs (''worker'' @ ''@v'' @ ''1.3.1'') =
        (if IsQualifiedName examplePkgs (''worker'' @ ''-v'' @ ''1.3.1'') = []
         then Ok (''worker'' @ ''-v'' @ ''1.3.1'')
         else Failed (ErrInvalidRevisionName ''worker''
                (IsQualifiedName examplePkgs (''worker'' @ ''-v'' @ ''1.3.1''))))"
    by blast
  with c have e: "ConvertDefinitionRevName examplePkgs ''worker@v1.3.1'' = Ok ''worker-v1.3.1''"
    by simp
  from t b have "ConvertDefinitionRevName examplePkgs ''@v1.0'' =
        (if IsQualifiedName examplePkgs ''@v1.0'' = [] then Ok ''@v1.0''
         else Failed (ErrInvalidRevisionName ''@v1.0''
                (IsQualifiedName examplePkgs ''@v1.0'')))"
    by blast
  with d have f: "ConvertDefinitionRevName examplePkgs ''@v1.0'' =
     Failed (ErrInvalidRevisionName ''@v1.0'' (IsQualifiedName examplePkgs ''@v1.0''))"
    by simp
  from t' a have "ConvertDefinitionRevName examplePkgs ''worker'' =
        (if IsQualifiedName examplePkgs ''worker'' = [] then Ok ''worker''
         else Failed (ErrInvalidRevisionName ''worker''
                (IsQualifiedName examplePkgs ''worker'')))"
    by blast
  with c' have g: "ConvertDefinitionRevName examplePkgs ''worker'' = Ok ''worker''"
    by simp
  show ?thesis by (rule conjI[OF a conjI[OF b conjI[OF e conjI[OF f g]]]])
qed

section \<open>Properties of the lookup by name\<close>

lemma GetDefinition_last:
  assumes "Get cli (GetDefinitionNamespaceWithCtx P ctx) definitionName = Inl e1"
    and "IsNotFound e1"
    and "fst (GetDefinitionFromNamespace cli definitionName (GetXDefinitionNamespaceWithCtx P ctx))
           = Inl e2"
    and "IsNotFound e2"
    and "fst (GetDefinitionFromNamespace cli definitionName (SystemDefinitionNamespace P)) = Inl e3"
  shows "fst (GetDefinition P ctx cli definitionName) = Inl e3"
proof -
  obtain c2 where x: "GetDefinitionFromNamespace cli definitionName
      (GetXDefinitionNamespaceWithCtx P ctx) = (Inl e2, c2)"
    using assms(3) by (cases "GetDefinitionFromNamespace cli definitionName
      (GetXDefinitionNamespaceWithCtx P ctx)") simp
  obtain c3 where s: "GetDefinitionFromNamespace cli definitionName
      (SystemDefinitionNamespace P) = (Inl e3, c3)"
    using assms(5) by (cases "GetDefinitionFromNamespace cli definitionName
      (SystemDefinitionNamespace P)") simp
  show ?thesis
    unfolding GetDefinition_def Let_def
    using assms(1,2,4) x s
    by (simp add: isNotFound_def errorOf_def)
qed

lemma definitionLoop_calls:
  "\<exists>more. snd (definitionLoop cli n nss err calls) = calls @ more"
proof (induction nss arbitrary: err calls)
  case Nil
  show ?case by simp
next
  case (Cons ns nss)
  obtain r c where g: "GetDefinitionFromNamespace cli n ns = (r, c)" by fastforce
  show ?case
  proof (cases "isNotFound (errorOf r)")
    case False
    with g show ?thesis by simp
  next
    case True
    from Cons.IH[of r "calls @ c"] obtain more
      where "snd (definitionLoop cli n nss r (calls @ c)) = (calls @ c) @ more" by blast
    with g True show ?thesis by simp
  qed
qed

lemma GetDefinitionFromNamespace_first_call:
  "\<exists>more. snd (GetDefinitionFromNamespace cli n ns) = (ns, n) # more"
  by (simp add: GetDefinitionFromNamespace_def Let_def split: sum.splits)

lemma GetDefinition_second_call:
  assumes "Get cli (GetDefinitionNamespaceWithCtx P ctx) definitionName = Inl err"
    and "IsNotFound err"
  shows "take 2 (snd (GetDefinition P ctx cli definitionName)) =
     [(GetDefinitionNamespaceWithCtx P ctx, definitionName),
      (GetXDefinitionNamespaceWithCtx P ctx, definitionName)]"
proof -
  let ?x = "GetXDefinitionNamespaceWithCtx P ctx"
  let ?a = "GetDefinitionNamespaceWithCtx P ctx"
  obtain r c where g: "GetDefinitionFromNamespace cli definitionName ?x = (r, c)" by fastforce
  from GetDefinitionFromNamespace_first_call[of cli definitionName ?x] g
  obtain more where c: "c = (?x, definitionName) # more" by auto
  have "\<exists>more'. snd (GetDefinition P ctx cli definitionName)
      = [(?a, definitionName)] @ c @ more'"
  proof (cases "isNotFound (errorOf r)")
    case False
    with g assms show ?thesis by (simp add: GetDefinition_def Let_def)
  next
    case True
    from definitionLoop_calls[of cli definitionName "[SystemDefinitionNamespace P]" r
        "[(?a, definitionName)] @ c"]
    obtain more' where "snd (definitionLoop cli definitionName [SystemDefinitionNamespace P] r
        ([(?a, definitionName)] @ c)) = ([(?a, definitionName)] @ c) @ more'" by blast
    with g assms True show ?thesis by (simp add: GetDefinition_def Let_def)
  qed
  then show ?thesis using c by auto
qed


text \<open>
  Claim C3 as stated: when the object is found in none of the three namespaces,
  \<^verbatim>\<open>GetDefinition\<close> returns the first error, that of the application namespace. On
  the store that holds nothing the three lookups report not-found with three different
  texts, and the error returned is the one of the system namespace, the last.
\<close>

theorem first_error_counterexample:
  "Get emptyStore ''default'' ''worker'' = Inl (ApiError True ''worker not found in default'')
   \<and> fst (GetDefinitionFromNamespace emptyStore ''worker'' ''x-definitions'')
       = Inl (ApiError True ''worker not found in x-definitions'')
   \<and> fst (GetDefinitionFromNamespace emptyStore ''worker'' ''vela-system'')
       = Inl (ApiError True ''worker not found in vela-system'')
   \<and> fst (GetDefinition examplePkgs exampleContext emptyStore ''worker'')
       = Inl (ApiError True ''worker not found in vela-system'')"
  by code_simp


text \<open>
  Claim C3 as amended: when the lookup in the application namespace and the attempt
  on the x-definition namespace report not-found and the attempt on the system
  namespace fails, \<^verbatim>\<open>GetDefinition\<close> returns the error of that last attempt.
\<close>

theorem GetDefinition_returns_last_error:
  assumes "Get cli (GetDefinitionNamespaceWithCtx P ctx) definitionName = Inl appErr"
    and "IsNotFound appErr"
    and "fst (GetDefinitionFromNamespace cli definitionName (GetXDefinitionNamespaceWithCtx P ctx))
           = Inl xErr"
    and "IsNotFound xErr"
    and "fst (GetDefinitionFromNamespace cli definitionName (SystemDefinitionNamespace P))
           = Inl systemErr"
  shows "fst (GetDefinition P ctx cli definitionName) = Inl systemErr"
  using assms by (rule GetDefinition_last)

theorem GetDefinition_returns_last_error_witness:
  "Get emptyStore (GetDefinitionNamespaceWithCtx examplePkgs exampleContext) ''worker''
     = Inl (ApiError True ''worker not found in default'')
   \<and> IsNotFound (ApiError True ''worker not found in default'')
   \<and> fst (GetDefinitionFromNamespace emptyStore ''worker''
            (GetXDefinitionNamespaceWithCtx examplePkgs exampleContext))
       = Inl (ApiError True ''worker not found in x-definitions'')
   \<and> IsNotFound (ApiError True ''worker not found in x-definitions'')
   \<and> fst (GetDefinitionFromNamespace emptyStore ''worker''
            (SystemDefinitionNamespace examplePkgs))
       = Inl (ApiError True ''worker not found in vela-system'')
   \<and> fst (GetDefinition examplePkgs exampleContext emptyStore ''worker'')
       = Inl (ApiError True ''worker not found in vela-system'')"
proof -
  have a: "Get emptyStore (GetDefinitionNamespaceWithCtx examplePkgs exampleContext) ''worker''
     = Inl (ApiError True ''worker not found in default'')" by code_simp
  have b: "IsNotFound (ApiError True ''worker not found in default'')" by simp
  have c: "fst (GetDefinitionFromNamespace emptyStore ''worker''
            (GetXDefinitionNamespaceWithCtx examplePkgs exampleContext))
       = Inl (ApiError True ''worker not found in x-definitions'')" by code_simp
  have d: "IsNotFound (ApiError True ''worker not found in x-definitions'')" by simp
  have e: "fst (GetDefinitionFromNamespace emptyStore ''worker''
            (SystemDefinitionNamespace examplePkgs))
       = Inl (ApiError True ''worker not found in vela-system'')" by code_simp
  note f = GetDefinition_returns_last_error[OF a b c d e]
  show ?thesis
    by (rule conjI[OF a conjI[OF b conjI[OF c conjI[OF d conjI[OF e f]]]]])
qed


text \<open>
  Claim C6 as stated: every namespaced attempt of \<^verbatim>\<open>GetDefinition\<close> that finds nothing
  is retried once without a namespace. On the store that holds nothing the calls are,
  in order, the application namespace, the x-definition namespace, no namespace, the
  system namespace, no namespace: the attempt on the application namespace has no
  retry.
\<close>

theorem application_namespace_retry_counterexample:
  "snd (GetDefinition examplePkgs exampleContext emptyStore ''worker'')
   = [(''default'', ''worker''), (''x-definitions'', ''worker''), ([], ''worker''),
      (''vela-system'', ''worker''), ([], ''worker'')]"
  by code_simp


text \<open>
  Claim C6 as amended: an attempt of \<^verbatim>\<open>GetDefinitionFromNamespace\<close> (the ones on the
  x-definition and the system namespace) that finds nothing is retried once without a
  namespace; when the retry fails with exactly the text
  \<^verbatim>\<open>an empty namespace may not be set when a resource name is provided\<close> the not-found
  error of the namespace is returned, and any other outcome of the retry is returned as
  it is. The lookup in the application namespace is not retried: after its not-found
  the next call is the lookup in the x-definition namespace.
\<close>

theorem legacy_fallback:
  "(Get cli namespace definitionName = Inl err \<and> IsNotFound err \<and>
      checkRequestNamespaceError (errorOf (Get cli [] definitionName)) \<longrightarrow>
      GetDefinitionFromNamespace cli definitionName namespace
        = (Inl err, [(namespace, definitionName), ([], definitionName)]))
   \<and> (Get cli namespace definitionName = Inl err \<and> IsNotFound err \<and>
      \<not> checkRequestNamespaceError (errorOf (Get cli [] definitionName)) \<longrightarrow>
      GetDefinitionFromNamespace cli definitionName namespace
        = (Get cli [] definitionName, [(namespace, definitionName), ([], definitionName)]))
   \<and> (Get cli (GetDefinitionNamespaceWithCtx P ctx) definitionName = Inl appErr \<and>
      IsNotFound appErr \<longrightarrow>
      take 2 (snd (GetDefinition P ctx cli definitionName))
        = [(GetDefinitionNamespaceWithCtx P ctx, definitionName),
           (GetXDefinitionNamespaceWithCtx P ctx, definitionName)])"
proof (intro conjI impI)
  assume "Get cli (GetDefinitionNamespaceWithCtx P ctx) definitionName = Inl appErr \<and>
      IsNotFound appErr"
  then show "take 2 (snd (GetDefinition P ctx cli definitionName))
        = [(GetDefinitionNamespaceWithCtx P ctx, definitionName),
           (GetXDefinitionNamespaceWithCtx P ctx, definitionName)]"
    by (intro GetDefinition_second_call) auto
qed (simp_all add: GetDefinitionFromNamespace_def Let_def)

theorem legacy_fallback_witness:
  "Get emptyStore ''x-definitions'' ''worker''
     = Inl (ApiError True ''worker not found in x-definitions'')
   \<and> checkRequestNamespaceError (errorOf (Get emptyStore [] ''worker''))
   \<and> GetDefinitionFromNamespace emptyStore ''worker'' ''x-definitions''
       = (Inl (ApiError True ''worker not found in x-definitions''),
          [(''x-definitions'', ''worker''), ([], ''worker'')])
   \<and> Get legacyStore ''vela-system'' ''worker''
       = Inl (ApiError True ''worker not found in vela-system'')
   \<and> \<not> checkRequestNamespaceError (errorOf (Get legacyStore [] ''worker''))
   \<and> GetDefinitionFromNamespace legacyStore ''worker'' ''vela-system''
       = (Inr (), [(''vela-system'', ''worker''), ([], ''worker'')])
   \<and> Get emptyStore (GetDefinitionNamespaceWithCtx examplePkgs exampleContext) ''worker''
       = Inl (ApiError True ''worker not found in default'')
   \<and> take 2 (snd (GetDefinition examplePkgs exampleContext emptyStore ''worker''))
       = [(''default'', ''worker''), (''x-definitions'', ''worker'')]"
proof -
  let ?ex = "ApiError True ''worker not found in x-definitions''"
  let ?es = "ApiError True ''worker not found in vela-system''"
  let ?ea = "ApiError True ''worker not found in default''"
  have a: "Get emptyStore ''x-definitions'' ''worker'' = Inl ?ex" by code_simp
  have b: "checkRequestNamespaceError (errorOf (Get emptyStore [] ''worker''))" by code_simp
  have c: "Get legacyStore ''vela-system'' ''worker'' = Inl ?es" by code_simp
  have d: "\<not> checkRequestNamespaceError (errorOf (Get legacyStore [] ''worker''))" by code_simp
  have d': "Get legacyStore [] ''worker'' = Inr ()" by code_simp
  have e: "Get emptyStore (GetDefinitionNamespaceWithCtx examplePkgs exampleContext) ''worker''
       = Inl ?ea" by code_simp
  have ns: "GetDefinitionNamespaceWithCtx examplePkgs exampleContext = ''default''"
      "GetXDefinitionNamespaceWithCtx examplePkgs exampleContext = ''x-definitions''"
    by code_simp+
  have nf: "IsNotFound ?ex" "IsNotFound ?es" "IsNotFound ?ea" by simp_all
  note t1 = legacy_fallback[where cli = emptyStore and namespace = "''x-definitions''"
      and definitionName = "''worker''" and err = ?ex and P = examplePkgs
      and ctx = exampleContext and appErr = ?ea]
  note t2 = legacy_fallback[where cli = legacyStore and namespace = "''vela-system''"
      and definitionName = "''worker''" and err = ?es and P = examplePkgs
      and ctx = exampleContext and appErr = ?ea]
  from t1 a b nf have r1: "GetDefinitionFromNamespace emptyStore ''worker'' ''x-definitions''
       = (Inl ?ex, [(''x-definitions'', ''worker''), ([], ''worker'')])" by blast
  from t2 c d nf have "GetDefinitionFromNamespace legacyStore ''worker'' ''vela-system''
       = (Get legacyStore [] ''worker'', [(''vela-system'', ''worker''), ([], ''worker'')])"
    by blast
  then have r2: "GetDefinitionFromNamespace legacyStore ''worker'' ''vela-system''
       = (Inr (), [(''vela-system'', ''worker''), ([], ''worker'')])"
    unfolding d' .
  from t1 e nf have "take 2 (snd (GetDefinition examplePkgs exampleContext emptyStore ''worker''))
        = [(GetDefinitionNamespaceWithCtx examplePkgs exampleContext, ''worker''),
           (GetXDefinitionNamespaceWithCtx examplePkgs exampleContext, ''worker'')]" by blast
  then have r3: "take 2 (snd (GetDefinition examplePkgs exampleContext emptyStore ''worker''))
       = [(''default'', ''worker''), (''x-definitions'', ''worker'')]"
    unfolding ns .
  show ?thesis
    by (rule conjI[OF a conjI[OF b conjI[OF r1 conjI[OF c conjI[OF d conjI[OF r2 conjI[OF e r3]]]]]]])
qed


section \<open>Properties of the latest revision\<close>

lemma GetLatest_unfold:
  "GetLatestDefinitionRevisionName P ctx cli d rn ty =
     (case fetchAllRevisionsForDefinitionName P cli (GetDefinitionNamespaceWithCtx P ctx) d ty of
        Inl err \<Rightarrow> Failed (ErrStore err)
      | Inr l1 \<Rightarrow>
          (case matchOutcome (getMatchingDefinitionRevision rn d l1 ty) of
             Some outcome \<Rightarrow> outcome
           | None \<Rightarrow>
               (case fetchAllRevisionsForDefinitionName P cli (SystemDefinitionNamespace P) d ty of
                  Inl err \<Rightarrow> Failed (ErrStore err)
                | Inr l2 \<Rightarrow>
                    (case matchOutcome (getMatchingDefinitionRevision rn d l2 ty) of
                       Some outcome \<Rightarrow> outcome
                     | None \<Rightarrow> Failed (ErrFindingRevision d ty)))))"
  by (simp add: GetLatestDefinitionRevisionName_def split: sum.splits option.splits)

lemma latest_from_app:
  assumes "fetchAllRevisionsForDefinitionName P cli (GetDefinitionNamespaceWithCtx P ctx)
        d ty = Inr l1"
    and "getMatchingDefinitionRevision rn d l1 ty = Ok name" and "name \<noteq> []"
  shows "GetLatestDefinitionRevisionName P ctx cli d rn ty = Ok name"
  using assms by (simp add: GetLatest_unfold matchOutcome_def)

text \<open>
  The rounds of the loop: an error of the listing ends the call; an outcome of the
  selection that the test \<^verbatim>\<open>err == nil && matchedDefinitionRevision != ""\<close> does not
  accept sends the loop to the next namespace, and after the system namespace to the
  error that names the definition and its kind.
\<close>

lemma latest_policy:
  "(fetchAllRevisionsForDefinitionName P cli (GetDefinitionNamespaceWithCtx P ctx)
        definitionName definitionType = Inl err \<longrightarrow>
      GetLatestDefinitionRevisionName P ctx cli definitionName revisionName definitionType
        = Failed (ErrStore err))
   \<and> (fetchAllRevisionsForDefinitionName P cli (GetDefinitionNamespaceWithCtx P ctx)
        definitionName definitionType = Inr l1 \<and>
      matchOutcome (getMatchingDefinitionRevision revisionName definitionName l1 definitionType)
        = None \<and>
      fetchAllRevisionsForDefinitionName P cli (SystemDefinitionNamespace P)
        definitionName definitionType = Inl err \<longrightarrow>
      GetLatestDefinitionRevisionName P ctx cli definitionName revisionName definitionType
        = Failed (ErrStore err))
   \<and> (fetchAllRevisionsForDefinitionName P cli (GetDefinitionNamespaceWithCtx P ctx)
        definitionName definitionType = Inr l1 \<and>
      matchOutcome (getMatchingDefinitionRevision revisionName definitionName l1 definitionType)
        = None \<and>
      fetchAllRevisionsForDefinitionName P cli (SystemDefinitionNamespace P)
        definitionName definitionType = Inr l2 \<and>
      matchOutcome (getMatchingDefinitionRevision revisionName definitionName l2 definitionType)
        = None \<longrightarrow>
      GetLatestDefinitionRevisionName P ctx cli definitionName revisionName definitionType
        = Failed (ErrFindingRevision definitionName definitionType))
   \<and> matchOutcome (Failed selectionError) = None
   \<and> matchOutcome (Ok []) = None"
proof (intro conjI impI)
  show "matchOutcome (Failed selectionError) = None" by (simp add: matchOutcome_def)
  show "matchOutcome (Ok []) = None" by (simp add: matchOutcome_def)
qed (simp_all add: GetLatest_unfold)


text \<open>
  Claim C4. A failure of the selection in a namespace should reach the caller of
  \<^verbatim>\<open>GetLatestDefinitionRevisionName\<close> as an error, at once, as the error of listing
  a namespace does. With the revision \<^verbatim>\<open>app-v1.x\<close> listed in the application
  namespace and the token \<^verbatim>\<open>app-v1\<close>, the selection panics before it can return its
  error, and the call panics with it; on the store that refuses the listing the error
  is returned at once.
\<close>

theorem latest_lookup_panics_on_malformed:
  "GetLatestDefinitionRevisionName examplePkgs exampleContext
     (storedRevisions [\<lparr>Name = ''app-v1.x'', DefinitionType = ''Component''\<rparr>])
     ''app'' ''app-v1'' ''Component''
   = Panicked NilPointerDereference
   \<and> GetLatestDefinitionRevisionName examplePkgs exampleContext failingStore
       ''app'' ''app-v1'' ''Component''
     = Failed (ErrStore (ApiError False ''forbidden''))"
  by code_simp

section \<open>Properties of the resolution with auto-update\<close>

lemma fetch_auto:
  assumes "annotations (AnnotationAutoUpdate P) = Some ''true''"
    and "Contains definitionName ''@''"
    and "ConvertDefinitionRevName P definitionName = Ok defRevName"
    and "Split definitionName ''@'' = defName # rest"
    and "GetLatestDefinitionRevisionName P ctx cli defName defRevName definitionType = Ok latest"
  shows "fetchDefinitionRevision P ctx cli definitionName definitionType annotations =
     (case fst (GetDefinition P ctx cli latest) of
        Inl err \<Rightarrow> Failed (ErrStore err)
      | Inr defRev \<Rightarrow> Ok (False, Some defRev))"
  using assms by (simp add: fetchDefinitionRevision_def)

lemma auto_update_exact:
  assumes auto: "annotations (AnnotationAutoUpdate P) = Some ''true''"
    and at: "Contains definitionName ''@''"
    and conv: "ConvertDefinitionRevName P definitionName = Ok defRevName"
    and split: "Split definitionName ''@'' = defName # rest"
    and list: "fetchAllRevisionsForDefinitionName P cli (GetDefinitionNamespaceWithCtx P ctx)
        defName definitionType = Inr revisions"
    and parses: "\<forall>revision \<in> set revisions.
        considered defRevName definitionType revision \<longrightarrow>
        parsedVersion defName revision \<noteq> None"
    and ex: "\<exists>revision \<in> set revisions.
      eligible definitionType revision \<and> Name revision = defRevName"
  shows "fetchDefinitionRevision P ctx cli definitionName definitionType annotations =
            (case fst (GetDefinition P ctx cli defRevName) of
               Inl err \<Rightarrow> Failed (ErrStore err)
             | Inr defRev \<Rightarrow> Ok (False, Some defRev))"
proof -
  have "definitionName \<noteq> []" using at by auto
  with conv have ne: "defRevName \<noteq> []" by (rule Convert_Ok_nonempty)
  have "getMatchingDefinitionRevision defRevName defName revisions definitionType = Ok defRevName"
    using ex parses by (rule select_exact)
  with list have "GetLatestDefinitionRevisionName P ctx cli defName defRevName definitionType
      = Ok defRevName" using ne by (rule latest_from_app)
  with auto at conv split show ?thesis by (rule fetch_auto)
qed

lemma auto_update_newest:
  assumes auto: "annotations (AnnotationAutoUpdate P) = Some ''true''"
    and at: "Contains definitionName ''@''"
    and conv: "ConvertDefinitionRevName P definitionName = Ok defRevName"
    and split: "Split definitionName ''@'' = defName # rest"
    and list: "fetchAllRevisionsForDefinitionName P cli (GetDefinitionNamespaceWithCtx P ctx)
        defName definitionType = Inr revisions"
    and parses: "\<forall>revision \<in> set revisions.
        considered defRevName definitionType revision \<longrightarrow>
        parsedVersion defName revision \<noteq> None"
    and noexact: "\<forall>revision \<in> set revisions.
      eligible definitionType revision \<longrightarrow> Name revision \<noteq> defRevName"
    and some: "\<exists>revision \<in> set revisions. considered defRevName definitionType revision"
  shows "\<exists>revision \<in> set revisions.
           considered defRevName definitionType revision \<and>
           (\<exists>version v.
              versionText defName revision = Some version \<and>
              parsedVersion defName revision = Some v \<and>
              fetchDefinitionRevision P ctx cli definitionName definitionType annotations =
                (case fst (GetDefinition P ctx cli (defName @ ''-'' @ version)) of
                   Inl err \<Rightarrow> Failed (ErrStore err)
                 | Inr defRev \<Rightarrow> Ok (False, Some defRev)) \<and>
              (\<forall>other \<in> set revisions.
                 considered defRevName definitionType other \<longrightarrow>
                 (\<exists>v'. parsedVersion defName other = Some v' \<and> precedenceLe v' v)))"
proof -
  from select_max[OF noexact parses some]
  obtain r where r: "r \<in> set revisions" and
    rr: "considered defRevName definitionType r \<and>
      (\<exists>t v. versionText defName r = Some t \<and> parsedVersion defName r = Some v \<and>
         getMatchingDefinitionRevision defRevName defName revisions definitionType
           = Ok (defName @ ''-'' @ t) \<and>
         (\<forall>r' \<in> set revisions. considered defRevName definitionType r' \<longrightarrow>
            (\<exists>v'. parsedVersion defName r' = Some v' \<and> precedenceLe v' v)))" ..
  from rr have c: "considered defRevName definitionType r" ..
  from rr obtain t v where tv: "versionText defName r = Some t \<and> parsedVersion defName r = Some v \<and>
         getMatchingDefinitionRevision defRevName defName revisions definitionType
           = Ok (defName @ ''-'' @ t) \<and>
         (\<forall>r' \<in> set revisions. considered defRevName definitionType r' \<longrightarrow>
            (\<exists>v'. parsedVersion defName r' = Some v' \<and> precedenceLe v' v))"
    by (elim conjE exE) (rule that, intro conjI)
  then have sel: "getMatchingDefinitionRevision defRevName defName revisions definitionType
           = Ok (defName @ ''-'' @ t)" by simp
  have "defName @ ''-'' @ t \<noteq> []" by simp
  with list sel have "GetLatestDefinitionRevisionName P ctx cli defName defRevName definitionType
      = Ok (defName @ ''-'' @ t)" by (rule latest_from_app)
  with auto at conv split
  have f: "fetchDefinitionRevision P ctx cli definitionName definitionType annotations =
      (case fst (GetDefinition P ctx cli (defName @ ''-'' @ t)) of
         Inl err \<Rightarrow> Failed (ErrStore err)
       | Inr defRev \<Rightarrow> Ok (False, Some defRev))" by (rule fetch_auto)
  have "\<exists>version v.
              versionText defName r = Some version \<and>
              parsedVersion defName r = Some v \<and>
              fetchDefinitionRevision P ctx cli definitionName definitionType annotations =
                (case fst (GetDefinition P ctx cli (defName @ ''-'' @ version)) of
                   Inl err \<Rightarrow> Failed (ErrStore err)
                 | Inr defRev \<Rightarrow> Ok (False, Some defRev)) \<and>
              (\<forall>other \<in> set revisions.
                 considered defRevName definitionType other \<longrightarrow>
                 (\<exists>v'. parsedVersion defName other = Some v' \<and> precedenceLe v' v))"
    using tv f by (intro exI[of _ t] exI[of _ v]) simp
  with c have "considered defRevName definitionType r \<and> (\<exists>version v.
              versionText defName r = Some version \<and>
              parsedVersion defName r = Some v \<and>
              fetchDefinitionRevision P ctx cli definitionName definitionType annotations =
                (case fst (GetDefinition P ctx cli (defName @ ''-'' @ version)) of
                   Inl err \<Rightarrow> Failed (ErrStore err)
                 | Inr defRev \<Rightarrow> Ok (False, Some defRev)) \<and>
              (\<forall>other \<in> set revisions.
                 considered defRevName definitionType other \<longrightarrow>
                 (\<exists>v'. parsedVersion defName other = Some v' \<and> precedenceLe v' v)))" ..
  with r show ?thesis ..
qed


text \<open>
  Claim C5 as stated: with the auto-update annotation \<^verbatim>\<open>true\<close> the resolution of
  \<^verbatim>\<open>name@vX.Y.Z\<close> returns the newest stored revision of the pinned version prefix, also
  when a revision of exactly the pinned version is stored. With \<^verbatim>\<open>app-v1.2.0\<close> and
  \<^verbatim>\<open>app-v1.2.1\<close> stored, \<^verbatim>\<open>app@v1.2.0\<close> resolves to \<^verbatim>\<open>app-v1.2.0\<close>.
\<close>

theorem auto_update_pin_counterexample:
  "fetchDefinitionRevision examplePkgs exampleContext
     (storedRevisions [\<lparr>Name = ''app-v1.2.0'', DefinitionType = ''Component''\<rparr>,
                       \<lparr>Name = ''app-v1.2.1'', DefinitionType = ''Component''\<rparr>])
     ''app@v1.2.0'' ''Component'' autoUpdateOn
   = Ok (False, Some \<lparr>Name = ''app-v1.2.0'', DefinitionType = ''Component''\<rparr>)"
  by code_simp


text \<open>
  Claim C5 as amended: with the auto-update annotation \<^verbatim>\<open>true\<close>, a reference that
  converts to the revision name \<^verbatim>\<open>name-vP\<close>, and the revisions listed for the definition
  in the application namespace (their considered ones carrying suffixes that parse):
  when a listed revision of the requested kind is named \<^verbatim>\<open>name-vP\<close>, that revision is
  the one fetched; when none is and some listed revision of the kind extends
  \<^verbatim>\<open>name-vP\<close> by a dot, the one fetched is named by the base name, a dash and the
  suffix of such a revision that none of them exceeds in the order of the numbers.
  The pin itself is never cut down to a shorter prefix.
\<close>

theorem auto_update_resolution:
  assumes "annotations (AnnotationAutoUpdate P) = Some ''true''"
    and "Contains definitionName ''@''"
    and "ConvertDefinitionRevName P definitionName = Ok defRevName"
    and "Split definitionName ''@'' = defName # rest"
    and "fetchAllRevisionsForDefinitionName P cli (GetDefinitionNamespaceWithCtx P ctx)
           defName definitionType = Inr revisions"
    and "\<forall>revision \<in> set revisions.
           considered defRevName definitionType revision \<longrightarrow>
           parsedVersion defName revision \<noteq> None"
  shows "((\<exists>revision \<in> set revisions.
             eligible definitionType revision \<and> Name revision = defRevName) \<longrightarrow>
          fetchDefinitionRevision P ctx cli definitionName definitionType annotations =
            (case fst (GetDefinition P ctx cli defRevName) of
               Inl err \<Rightarrow> Failed (ErrStore err)
             | Inr defRev \<Rightarrow> Ok (False, Some defRev)))
       \<and> ((\<forall>revision \<in> set revisions.
              eligible definitionType revision \<longrightarrow> Name revision \<noteq> defRevName) \<and>
           (\<exists>revision \<in> set revisions. considered defRevName definitionType revision) \<longrightarrow>
          (\<exists>revision \<in> set revisions.
             considered defRevName definitionType revision \<and>
             (\<exists>version v.
                versionText defName revision = Some version \<and>
                parsedVersion defName revision = Some v \<and>
                fetchDefinitionRevision P ctx cli definitionName definitionType annotations =
                  (case fst (GetDefinition P ctx cli (defName @ ''-'' @ version)) of
                     Inl err \<Rightarrow> Failed (ErrStore err)
                   | Inr defRev \<Rightarrow> Ok (False, Some defRev)) \<and>
                (\<forall>other \<in> set revisions.
                   considered defRevName definitionType other \<longrightarrow>
                   (\<exists>v'. parsedVersion defName other = Some v' \<and> precedenceLe v' v)))))"
proof (intro conjI impI)
  assume "\<exists>revision \<in> set revisions.
      eligible definitionType revision \<and> Name revision = defRevName"
  with assms show "fetchDefinitionRevision P ctx cli definitionName definitionType annotations =
            (case fst (GetDefinition P ctx cli defRevName) of
               Inl err \<Rightarrow> Failed (ErrStore err)
             | Inr defRev \<Rightarrow> Ok (False, Some defRev))"
    by (rule auto_update_exact)
next
  assume a: "(\<forall>revision \<in> set revisions.
              eligible definitionType revision \<longrightarrow> Name revision \<noteq> defRevName) \<and>
           (\<exists>revision \<in> set revisions. considered defRevName definitionType revision)"
  from a have n: "\<forall>revision \<in> set revisions.
      eligible definitionType revision \<longrightarrow> Name revision \<noteq> defRevName" ..
  from a have s: "\<exists>revision \<in> set revisions. considered defRevName definitionType revision" ..
  from assms n s show "\<exists>revision \<in> set revisions.
             considered defRevName definitionType revision \<and>
             (\<exists>version v.
                versionText defName revision = Some version \<and>
                parsedVersion defName revision = Some v \<and>
                fetchDefinitionRevision P ctx cli definitionName definitionType annotations =
                  (case fst (GetDefinition P ctx cli (defName @ ''-'' @ version)) of
                     Inl err \<Rightarrow> Failed (ErrStore err)
                   | Inr defRev \<Rightarrow> Ok (False, Some defRev)) \<and>
                (\<forall>other \<in> set revisions.
                   considered defRevName definitionType other \<longrightarrow>
                   (\<exists>v'. parsedVersion defName other = Some v' \<and> precedenceLe v' v)))"
    by (rule auto_update_newest)
qed

theorem auto_update_resolution_witness:
  "autoUpdateOn (AnnotationAutoUpdate examplePkgs) = Some ''true''
   \<and> Contains ''app@v1.2.0'' ''@''
   \<and> ConvertDefinitionRevName examplePkgs ''app@v1.2.0'' = Ok ''app-v1.2.0''
   \<and> Split ''app@v1.2.0'' ''@'' = [''app'', ''v1.2.0'']
   \<and> (\<exists>revision \<in> set [\<lparr>Name = ''app-v1.2.0'', DefinitionType = ''Component''\<rparr>,
                          \<lparr>Name = ''app-v1.2.1'', DefinitionType = ''Component''\<rparr>].
        eligible ''Component'' revision \<and> Name revision = ''app-v1.2.0'')
   \<and> fetchDefinitionRevision examplePkgs exampleContext
        (storedRevisions [\<lparr>Name = ''app-v1.2.0'', DefinitionType = ''Component''\<rparr>,
                          \<lparr>Name = ''app-v1.2.1'', DefinitionType = ''Component''\<rparr>])
        ''app@v1.2.0'' ''Component'' autoUpdateOn
      = Ok (False, Some \<lparr>Name = ''app-v1.2.0'', DefinitionType = ''Component''\<rparr>)
   \<and> ConvertDefinitionRevName examplePkgs ''app@v1'' = Ok ''app-v1''
   \<and> (\<exists>revision \<in> set [\<lparr>Name = ''app-v1.2.0'', DefinitionType = ''Component''\<rparr>,
                          \<lparr>Name = ''app-v1.3.1'', DefinitionType = ''Component''\<rparr>].
        considered ''app-v1'' ''Component'' revision \<and>
        (\<exists>version v.
           versionText ''app'' revision = Some version \<and>
           parsedVersion ''app'' revision = Some v \<and>
           fetchDefinitionRevision examplePkgs exampleContext
             (storedRevisions [\<lparr>Name = ''app-v1.2.0'', DefinitionType = ''Component''\<rparr>,
                               \<lparr>Name = ''app-v1.3.1'', DefinitionType = ''Component''\<rparr>])
             ''app@v1'' ''Component'' autoUpdateOn
           = (case fst (GetDefinition examplePkgs exampleContext
                 (storedRevisions [\<lparr>Name = ''app-v1.2.0'', DefinitionType = ''Component''\<rparr>,
                                   \<lparr>Name = ''app-v1.3.1'', DefinitionType = ''Component''\<rparr>])
                 (''app'' @ ''-'' @ version)) of
                Inl err \<Rightarrow> Failed (ErrStore err)
              | Inr defRev \<Rightarrow> Ok (False, Some defRev))))
   \<and> fetchDefinitionRevision examplePkgs exampleContext
        (storedRevisions [\<lparr>Name = ''app-v1.2.0'', DefinitionType = ''Component''\<rparr>,
                          \<lparr>Name = ''app-v1.3.1'', DefinitionType = ''Component''\<rparr>])
        ''app@v1'' ''Component'' autoUpdateOn
      = Ok (False, Some \<lparr>Name = ''app-v1.3.1'', DefinitionType = ''Component''\<rparr>)"
proof -
  let ?l1 = "[\<lparr>Name = ''app-v1.2.0'', DefinitionType = ''Component''\<rparr>,
              \<lparr>Name = ''app-v1.2.1'', DefinitionType = ''Component''\<rparr>]"
  let ?l2 = "[\<lparr>Name = ''app-v1.2.0'', DefinitionType = ''Component''\<rparr>,
              \<lparr>Name = ''app-v1.3.1'', DefinitionType = ''Component''\<rparr>]"
  have au: "autoUpdateOn (AnnotationAutoUpdate examplePkgs) = Some ''true''" by code_simp
  have at1: "Contains ''app@v1.2.0'' ''@''" by code_simp
  have cv1: "ConvertDefinitionRevName examplePkgs ''app@v1.2.0'' = Ok ''app-v1.2.0''"
    by code_simp
  have sp1: "Split ''app@v1.2.0'' ''@'' = [''app'', ''v1.2.0'']" by code_simp
  have ls1: "fetchAllRevisionsForDefinitionName examplePkgs (storedRevisions ?l1)
      (GetDefinitionNamespaceWithCtx examplePkgs exampleContext) ''app'' ''Component''
      = Inr ?l1" by code_simp
  have ps1: "\<forall>revision \<in> set ?l1. considered ''app-v1.2.0'' ''Component'' revision \<longrightarrow>
      parsedVersion ''app'' revision \<noteq> None" by code_simp
  have ex1: "\<exists>revision \<in> set ?l1.
      eligible ''Component'' revision \<and> Name revision = ''app-v1.2.0''" by code_simp
  have g1: "fst (GetDefinition examplePkgs exampleContext (storedRevisions ?l1) ''app-v1.2.0'')
      = Inr \<lparr>Name = ''app-v1.2.0'', DefinitionType = ''Component''\<rparr>" by code_simp
  from auto_update_resolution[where annotations = autoUpdateOn and P = examplePkgs,
      OF au at1 cv1 sp1 ls1 ps1] ex1
  have "fetchDefinitionRevision examplePkgs exampleContext (storedRevisions ?l1)
        ''app@v1.2.0'' ''Component'' autoUpdateOn
      = (case fst (GetDefinition examplePkgs exampleContext (storedRevisions ?l1)
               ''app-v1.2.0'') of
           Inl err \<Rightarrow> Failed (ErrStore err)
         | Inr defRev \<Rightarrow> Ok (False, Some defRev))" by blast
  then have r1: "fetchDefinitionRevision examplePkgs exampleContext (storedRevisions ?l1)
        ''app@v1.2.0'' ''Component'' autoUpdateOn
      = Ok (False, Some \<lparr>Name = ''app-v1.2.0'', DefinitionType = ''Component''\<rparr>)"
    unfolding g1 by simp
  have at2: "Contains ''app@v1'' ''@''" by code_simp
  have cv2: "ConvertDefinitionRevName examplePkgs ''app@v1'' = Ok ''app-v1''" by code_simp
  have sp2: "Split ''app@v1'' ''@'' = [''app'', ''v1'']" by code_simp
  have ls2: "fetchAllRevisionsForDefinitionName examplePkgs (storedRevisions ?l2)
      (GetDefinitionNamespaceWithCtx examplePkgs exampleContext) ''app'' ''Component''
      = Inr ?l2" by code_simp
  have ps2: "\<forall>revision \<in> set ?l2. considered ''app-v1'' ''Component'' revision \<longrightarrow>
      parsedVersion ''app'' revision \<noteq> None" by code_simp
  have ne2: "\<forall>revision \<in> set ?l2.
      eligible ''Component'' revision \<longrightarrow> Name revision \<noteq> ''app-v1''" by code_simp
  have sm2: "\<exists>revision \<in> set ?l2. considered ''app-v1'' ''Component'' revision" by code_simp
  from auto_update_resolution[where annotations = autoUpdateOn and P = examplePkgs,
      OF au at2 cv2 sp2 ls2 ps2] ne2 sm2
  have "\<exists>revision \<in> set ?l2.
        considered ''app-v1'' ''Component'' revision \<and>
        (\<exists>version v.
           versionText ''app'' revision = Some version \<and>
           parsedVersion ''app'' revision = Some v \<and>
           fetchDefinitionRevision examplePkgs exampleContext (storedRevisions ?l2)
             ''app@v1'' ''Component'' autoUpdateOn
           = (case fst (GetDefinition examplePkgs exampleContext (storedRevisions ?l2)
                 (''app'' @ ''-'' @ version)) of
                Inl err \<Rightarrow> Failed (ErrStore err)
              | Inr defRev \<Rightarrow> Ok (False, Some defRev)) \<and>
           (\<forall>other \<in> set ?l2.
              considered ''app-v1'' ''Component'' other \<longrightarrow>
              (\<exists>v'. parsedVersion ''app'' other = Some v' \<and> precedenceLe v' v)))"
    by blast
  then have r2: "\<exists>revision \<in> set ?l2.
        considered ''app-v1'' ''Component'' revision \<and>
        (\<exists>version v.
           versionText ''app'' revision = Some version \<and>
           parsedVersion ''app'' revision = Some v \<and>
           fetchDefinitionRevision examplePkgs exampleContext (storedRevisions ?l2)
             ''app@v1'' ''Component'' autoUpdateOn
           = (case fst (GetDefinition examplePkgs exampleContext (storedRevisions ?l2)
                 (''app'' @ ''-'' @ version)) of
                Inl err \<Rightarrow> Failed (ErrStore err)
              | Inr defRev \<Rightarrow> Ok (False, Some defRev)))"
    by blast
  have r3: "fetchDefinitionRevision examplePkgs exampleContext (storedRevisions ?l2)
        ''app@v1'' ''Component'' autoUpdateOn
      = Ok (False, Some \<lparr>Name = ''app-v1.3.1'', DefinitionType = ''Component''\<rparr>)"
    by code_simp
  show ?thesis
    by (rule conjI[OF au conjI[OF at1 conjI[OF cv1 conjI[OF sp1 conjI[OF ex1 conjI[OF r1
          conjI[OF cv2 conjI[OF r2 r3]]]]]]]])
qed


end
